theory Spec2Isabelle
  imports Complex_Main "HOL-Library.Word" "HOL-Library.Multiset"
begin

section \<open>Data model (Metrics.h)\<close>

text \<open>
  The C++ \<^verbatim>\<open>double\<close> values of the score model are modelled by \<^typ>\<open>real\<close>: the
  arithmetic of the model is exact, rounding is not represented. The \<^verbatim>\<open>int\<close> fields are
  modelled by \<^typ>\<open>int\<close>; the counters of the source would need more than \<open>2^31\<close> syntax
  nodes to overflow. The values computed from row numbers are taken in 32 bits.
\<close>

record FunctionMetric =
  name :: string
  line_start :: int
  line_end :: int
  line_count :: int
  complexity :: int

record FileMetrics =
  file_path :: string
  functions_v :: "FunctionMetric list"
  avg_function_length :: real
  avg_function_complexity :: real
  total_lines :: int
  comment_lines :: int
  comment_coverage_ratio :: real
  naming_violations :: int
  shit_mountain_index :: real

text \<open>The member initialisers of the two structs.\<close>

definition FunctionMetric_init :: FunctionMetric where
  "FunctionMetric_init =
     \<lparr>name = [], line_start = 0, line_end = 0, line_count = 0, complexity = 1\<rparr>"

definition FileMetrics_init :: FileMetrics where
  "FileMetrics_init =
     \<lparr>file_path = [], functions_v = [], avg_function_length = 0,
      avg_function_complexity = 0, total_lines = 0, comment_lines = 0,
      comment_coverage_ratio = 0, naming_violations = 0, shit_mountain_index = 0\<rparr>"

section \<open>Syntax trees (the tree-sitter interface)\<close>

text \<open>
  A node of the syntax tree as the analyzer reads it through the tree-sitter API: its type
  tag, the field name under which it hangs in its parent (if any), its position, the
  parser's error flag for its subtree, and its children in order. Rows and byte offsets
  are \<^verbatim>\<open>uint32_t\<close>. The null node is \<open>None\<close> of \<^typ>\<open>'a option\<close>.
\<close>

record TSSpan =
  start_row :: "32 word"
  end_row :: "32 word"
  start_byte :: "32 word"
  end_byte :: "32 word"

datatype TSNode =
  TSNode (ts_node_type: string) (ts_field: "string option") (ts_span: TSSpan)
         (ts_node_has_error: bool) (ts_children: "TSNode list")

text \<open>\<^verbatim>\<open>ts_node_child_by_field_name\<close>: the first child with that field name, or null.\<close>

definition ts_node_child_by_field_name :: "TSNode \<Rightarrow> string \<Rightarrow> TSNode option" where
  "ts_node_child_by_field_name node fld =
     find (\<lambda>c. ts_field c = Some fld) (ts_children node)"

datatype error = out_of_range

text \<open>
  \<^verbatim>\<open>getNodeText\<close>: \<^verbatim>\<open>source.substr(start, end - start)\<close> throws \<^verbatim>\<open>std::out_of_range\<close>
  when \<open>start\<close> lies beyond the end of the source; the length \<open>end - start\<close> is computed
  in \<^verbatim>\<open>uint32_t\<close>.
\<close>

definition getNodeText :: "TSNode option \<Rightarrow> string \<Rightarrow> error + string" where
  "getNodeText node source =
     (case node of
        None \<Rightarrow> Inr []
      | Some n \<Rightarrow>
          let startb = start_byte (ts_span n); endb = end_byte (ts_span n)
          in if unat startb > length source then Inl out_of_range
             else Inr (take (unat (endb - startb)) (drop (unat startb) source)))"

fun findIdentifierRecursive :: "TSNode \<Rightarrow> TSNode option"
  and findIdentifierRecursive_loop :: "TSNode list \<Rightarrow> TSNode option" where
  "findIdentifierRecursive (TSNode t f sp he cs) =
     (if t = ''identifier'' then Some (TSNode t f sp he cs)
      else findIdentifierRecursive_loop cs)"
| "findIdentifierRecursive_loop [] = None"
| "findIdentifierRecursive_loop (c # cs) =
     (case findIdentifierRecursive c of
        Some result \<Rightarrow> Some result
      | None \<Rightarrow> findIdentifierRecursive_loop cs)"

fun hasChildOfTypeRecursive :: "TSNode \<Rightarrow> string \<Rightarrow> bool"
  and hasChildOfTypeRecursive_loop :: "TSNode list \<Rightarrow> string \<Rightarrow> bool" where
  "hasChildOfTypeRecursive (TSNode t f sp he cs) ty =
     (if t = ty then True else hasChildOfTypeRecursive_loop cs ty)"
| "hasChildOfTypeRecursive_loop [] ty = False"
| "hasChildOfTypeRecursive_loop (c # cs) ty =
     (if hasChildOfTypeRecursive c ty then True else hasChildOfTypeRecursive_loop cs ty)"

section \<open>Language strategies (LanguageStrategy.h, Analyzer.cpp)\<close>

text \<open>
  The class hierarchy as a closed datatype; \<^verbatim>\<open>CppStrategy\<close> inherits every method of
  \<^verbatim>\<open>CStrategy\<close> and \<^verbatim>\<open>TSStrategy\<close> every method of \<^verbatim>\<open>JSStrategy\<close>.
\<close>

datatype LanguageStrategy =
  CStrategy | CppStrategy | PythonStrategy | JavaStrategy | RustStrategy | GoStrategy
  | JSStrategy | TSStrategy

definition getFunctionDefinitionTypes_C :: "string list" where
  "getFunctionDefinitionTypes_C = [''function_definition'']"

definition getFunctionDefinitionTypes_JS :: "string list" where
  "getFunctionDefinitionTypes_JS =
     [''function_declaration'', ''function'', ''arrow_function'', ''method_definition'']"

fun getFunctionDefinitionTypes :: "LanguageStrategy \<Rightarrow> string list" where
  "getFunctionDefinitionTypes CStrategy = getFunctionDefinitionTypes_C"
| "getFunctionDefinitionTypes CppStrategy = getFunctionDefinitionTypes_C"
| "getFunctionDefinitionTypes PythonStrategy = [''function_definition'']"
| "getFunctionDefinitionTypes JavaStrategy =
     [''method_declaration'', ''constructor_declaration'']"
| "getFunctionDefinitionTypes RustStrategy = [''function_item'']"
| "getFunctionDefinitionTypes GoStrategy = [''function_declaration'', ''method_declaration'']"
| "getFunctionDefinitionTypes JSStrategy = getFunctionDefinitionTypes_JS"
| "getFunctionDefinitionTypes TSStrategy = getFunctionDefinitionTypes_JS"

definition getComplexityNodeTypes_C :: "string list" where
  "getComplexityNodeTypes_C =
     [''if_statement'', ''for_statement'', ''while_statement'', ''do_statement'',
      ''case_statement'', ''catch_clause'', ''conditional_expression'']"

definition getComplexityNodeTypes_JS :: "string list" where
  "getComplexityNodeTypes_JS =
     [''if_statement'', ''for_statement'', ''for_in_statement'', ''while_statement'',
      ''do_statement'', ''switch_case'', ''catch_clause'', ''ternary_expression'']"

fun getComplexityNodeTypes :: "LanguageStrategy \<Rightarrow> string list" where
  "getComplexityNodeTypes CStrategy = getComplexityNodeTypes_C"
| "getComplexityNodeTypes CppStrategy = getComplexityNodeTypes_C"
| "getComplexityNodeTypes PythonStrategy =
     [''if_statement'', ''for_statement'', ''while_statement'', ''except_clause'',
      ''conditional_expression'', ''elif_clause'']"
| "getComplexityNodeTypes JavaStrategy =
     [''if_statement'', ''for_statement'', ''while_statement'', ''do_statement'',
      ''switch_expression'', ''catch_clause'', ''ternary_expression'']"
| "getComplexityNodeTypes RustStrategy =
     [''if_expression'', ''for_expression'', ''while_expression'', ''match_arm'',
      ''loop_expression'']"
| "getComplexityNodeTypes GoStrategy =
     [''if_statement'', ''for_statement'', ''switch_statement'', ''select_statement'']"
| "getComplexityNodeTypes JSStrategy = getComplexityNodeTypes_JS"
| "getComplexityNodeTypes TSStrategy = getComplexityNodeTypes_JS"

text \<open>\<^verbatim>\<open>LanguageStrategy::isLogicalOperator\<close>, the base-class implementation.\<close>

definition isLogicalOperator_default :: "TSNode \<Rightarrow> bool" where
  "isLogicalOperator_default node =
     (if ts_node_type node = ''binary_expression'' then
        (case ts_node_child_by_field_name node ''operator'' of
           Some op \<Rightarrow> ts_node_type op = ''&&'' \<or> ts_node_type op = ''||''
         | None \<Rightarrow> False)
      else False)"

fun isLogicalOperator :: "LanguageStrategy \<Rightarrow> TSNode \<Rightarrow> bool" where
  "isLogicalOperator PythonStrategy node = (ts_node_type node = ''boolean_operator'')"
| "isLogicalOperator s node = isLogicalOperator_default node"

text \<open>\<^verbatim>\<open>CStrategy::isSpecialFunction\<close>.\<close>

definition isSpecialFunction_C :: "TSNode \<Rightarrow> bool" where
  "isSpecialFunction_C functionNode =
     (let declarator =
        (case ts_node_child_by_field_name functionNode ''declarator'' of
           Some d \<Rightarrow> Some d
         | None \<Rightarrow> ts_node_child_by_field_name functionNode ''abstract_declarator'')
      in case declarator of
           None \<Rightarrow> False
         | Some d \<Rightarrow>
             hasChildOfTypeRecursive d ''operator_name''
             \<or> hasChildOfTypeRecursive d ''destructor_name'')"

fun isSpecialFunction :: "LanguageStrategy \<Rightarrow> TSNode \<Rightarrow> bool" where
  "isSpecialFunction CStrategy functionNode = isSpecialFunction_C functionNode"
| "isSpecialFunction CppStrategy functionNode = isSpecialFunction_C functionNode"
| "isSpecialFunction s functionNode = False"

text \<open>
  \<^verbatim>\<open>extractFunctionName\<close>. \<^verbatim>\<open>JSStrategy\<close> reads the parent of the node
  (\<^verbatim>\<open>ts_node_parent\<close>), so the parent is an argument here; it is \<open>None\<close> at the root.
\<close>

definition extractFunctionName_C :: "TSNode \<Rightarrow> string \<Rightarrow> error + string" where
  "extractFunctionName_C node source =
     (case ts_node_child_by_field_name node ''declarator'' of
        Some declaratorNode \<Rightarrow>
          (case findIdentifierRecursive declaratorNode of
             Some identifierNode \<Rightarrow> getNodeText (Some identifierNode) source
           | None \<Rightarrow> Inr ''[extraction_failed]'')
      | None \<Rightarrow> Inr ''[extraction_failed]'')"

definition extractFunctionName_by_name :: "TSNode \<Rightarrow> string \<Rightarrow> error + string" where
  "extractFunctionName_by_name node source =
     getNodeText (ts_node_child_by_field_name node ''name'') source"

definition extractFunctionName_JS ::
  "TSNode option \<Rightarrow> TSNode \<Rightarrow> string \<Rightarrow> error + string" where
  "extractFunctionName_JS parent node source =
     (case ts_node_child_by_field_name node ''name'' of
        Some nameNode \<Rightarrow> getNodeText (Some nameNode) source
      | None \<Rightarrow>
          if ts_node_type node = ''arrow_function'' then
            (case parent of
               Some p \<Rightarrow>
                 if ts_node_type p = ''variable_declarator'' then
                   getNodeText (ts_node_child_by_field_name p ''name'') source
                 else Inr ''[anonymous function]''
             | None \<Rightarrow> Inr ''[anonymous function]'')
          else Inr ''[anonymous function]'')"

fun extractFunctionName ::
  "LanguageStrategy \<Rightarrow> TSNode option \<Rightarrow> TSNode \<Rightarrow> string \<Rightarrow> error + string" where
  "extractFunctionName CStrategy parent node source = extractFunctionName_C node source"
| "extractFunctionName CppStrategy parent node source = extractFunctionName_C node source"
| "extractFunctionName PythonStrategy parent node source =
     extractFunctionName_by_name node source"
| "extractFunctionName JavaStrategy parent node source =
     extractFunctionName_by_name node source"
| "extractFunctionName RustStrategy parent node source =
     extractFunctionName_by_name node source"
| "extractFunctionName GoStrategy parent node source =
     extractFunctionName_by_name node source"
| "extractFunctionName JSStrategy parent node source =
     extractFunctionName_JS parent node source"
| "extractFunctionName TSStrategy parent node source =
     extractFunctionName_JS parent node source"

definition createStrategy :: "string \<Rightarrow> LanguageStrategy option" where
  "createStrategy language =
     (if language = ''c'' then Some CStrategy
      else if language = ''cpp'' then Some CppStrategy
      else if language = ''python'' then Some PythonStrategy
      else if language = ''java'' then Some JavaStrategy
      else if language = ''rust'' then Some RustStrategy
      else if language = ''go'' then Some GoStrategy
      else if language = ''javascript'' then Some JSStrategy
      else if language = ''typescript'' then Some TSStrategy
      else None)"

section \<open>Score model (Analyzer::calculateFinalScore)\<close>

text \<open>
  The local variables of \<^verbatim>\<open>calculateFinalScore\<close>, each as a function of the raw metric
  it is computed from. \<^verbatim>\<open>std::max(0.0, x)\<close> is \<open>max 0 x\<close> and \<^verbatim>\<open>std::min(100.0, x)\<close>
  is \<open>min 100 x\<close>.
\<close>

definition naming_score :: "int \<Rightarrow> real" where
  "naming_score violations = max 0 (100 - real_of_int violations * 5)"

definition comment_score_A :: "real \<Rightarrow> real" where
  "comment_score_A ratio = min 100 ((ratio / 30) * 100)"

definition complexity_score :: "real \<Rightarrow> real" where
  "complexity_score avg_complexity = max 0 (100 - (avg_complexity - 1) / (20 - 1) * 100)"

definition length_score :: "real \<Rightarrow> real" where
  "length_score avg_length = max 0 (100 - (avg_length - 10) / (100 - 10) * 100)"

definition comment_score_B :: "real \<Rightarrow> real" where
  "comment_score_B ratio = max 0 (100 - \<bar>ratio - 15\<bar> / 15 * 100)"

text \<open>Step 1 of \<^verbatim>\<open>calculateFinalScore\<close>: the raw aggregated metrics.\<close>

definition aggregate :: "FileMetrics \<Rightarrow> FileMetrics" where
  "aggregate metrics =
     (let m1 =
        (if functions_v metrics \<noteq> [] then
           let total_length =
                 fold (\<lambda>func t. t + real_of_int (line_count func)) (functions_v metrics) 0;
               total_complexity =
                 fold (\<lambda>func t. t + real_of_int (complexity func)) (functions_v metrics) 0
           in metrics\<lparr>avg_function_length :=
                          total_length / real (length (functions_v metrics)),
                        avg_function_complexity :=
                          total_complexity / real (length (functions_v metrics))\<rparr>
         else metrics)
      in if total_lines m1 > 0 then
           m1\<lparr>comment_coverage_ratio :=
                 real_of_int (comment_lines m1) / real_of_int (total_lines m1) * 100\<rparr>
         else m1)"

definition calculateFinalScore :: "FileMetrics \<Rightarrow> FileMetrics" where
  "calculateFinalScore metrics0 =
     (let metrics = aggregate metrics0;
          naming = naming_score (naming_violations metrics)
      in if functions_v metrics = [] then
           let comment = comment_score_A (comment_coverage_ratio metrics);
               total_quality_score = (comment * 0.7) + (naming * 0.3)
           in metrics\<lparr>shit_mountain_index := 100 - total_quality_score\<rparr>
         else
           let complexity_sc = complexity_score (avg_function_complexity metrics);
               length_sc = length_score (avg_function_length metrics);
               comment = comment_score_B (comment_coverage_ratio metrics);
               total_quality_score =
                 (complexity_sc * 0.50) + (length_sc * 0.15) + (comment * 0.15)
                 + (naming * 0.20)
           in metrics\<lparr>shit_mountain_index := 100 - total_quality_score\<rparr>)"

section \<open>Metric extraction (Analyzer.cpp)\<close>

text \<open>
  The recursive walks of the class \<^verbatim>\<open>Analyzer\<close>. The strategy (the member
  \<^verbatim>\<open>langStrategy\<close>) and the parent of the visited node are explicit arguments; the
  \<^verbatim>\<open>FileMetrics&\<close> that the source mutates is passed in and returned. Each \<open>_loop\<close>
  function is the \<^verbatim>\<open>for\<close> loop over the children of a node. An exception thrown by
  \<^verbatim>\<open>getNodeText\<close> leaves every walk at once (\<open>Inl\<close>).
\<close>

fun calculateComplexity :: "LanguageStrategy \<Rightarrow> TSNode \<Rightarrow> int"
  and calculateComplexity_loop :: "LanguageStrategy \<Rightarrow> TSNode list \<Rightarrow> int \<Rightarrow> int" where
  "calculateComplexity s (TSNode t f sp he cs) =
     (let c0 =
        (if t \<in> set (getComplexityNodeTypes s) then 1
         else if isLogicalOperator s (TSNode t f sp he cs) then 1
         else 0);
          c1 = calculateComplexity_loop s cs c0
      in if t \<in> set (getFunctionDefinitionTypes s) then c1 + 1 else c1)"
| "calculateComplexity_loop s [] acc = acc"
| "calculateComplexity_loop s (c # cs) acc =
     calculateComplexity_loop s cs (acc + calculateComplexity s c)"

text \<open>
  \<^verbatim>\<open>line_end - line_start + 1\<close> is \<^verbatim>\<open>int\<close> arithmetic on two values converted from
  \<^verbatim>\<open>uint32_t\<close>; it wraps around at 32 bits.
\<close>

definition analyzeSingleFunction ::
  "LanguageStrategy \<Rightarrow> TSNode option \<Rightarrow> TSNode \<Rightarrow> FileMetrics \<Rightarrow> string
     \<Rightarrow> error + FileMetrics" where
  "analyzeSingleFunction s parent funcNode metrics sourceCode =
     (let ls = sint (start_row (ts_span funcNode) + 1);
          le = sint (end_row (ts_span funcNode) + 1)
      in case extractFunctionName s parent funcNode sourceCode of
           Inl e \<Rightarrow> Inl e
         | Inr extracted \<Rightarrow>
             let func =
               \<lparr>name = (if extracted = [] then ''[anonymous/unknown]'' else extracted),
                line_start = ls, line_end = le,
                line_count = sint (word_of_int le - word_of_int ls + (1 :: 32 word)),
                complexity = calculateComplexity s funcNode\<rparr>
             in Inr (metrics\<lparr>functions_v := functions_v metrics @ [func]\<rparr>))"

fun analyzeFunctions ::
  "LanguageStrategy \<Rightarrow> TSNode option \<Rightarrow> TSNode \<Rightarrow> FileMetrics \<Rightarrow> string
     \<Rightarrow> error + FileMetrics"
  and analyzeFunctions_loop ::
  "LanguageStrategy \<Rightarrow> TSNode \<Rightarrow> TSNode list \<Rightarrow> FileMetrics \<Rightarrow> string
     \<Rightarrow> error + FileMetrics" where
  "analyzeFunctions s parent (TSNode t f sp he cs) metrics sourceCode =
     (if t \<in> set (getFunctionDefinitionTypes s) then
        (if \<not> isSpecialFunction s (TSNode t f sp he cs) then
           analyzeSingleFunction s parent (TSNode t f sp he cs) metrics sourceCode
         else Inr metrics)
      else analyzeFunctions_loop s (TSNode t f sp he cs) cs metrics sourceCode)"
| "analyzeFunctions_loop s node [] metrics sourceCode = Inr metrics"
| "analyzeFunctions_loop s node (c # cs) metrics sourceCode =
     (case analyzeFunctions s (Some node) c metrics sourceCode of
        Inl e \<Rightarrow> Inl e
      | Inr metrics' \<Rightarrow> analyzeFunctions_loop s node cs metrics' sourceCode)"

text \<open>
  \<^verbatim>\<open>comment_lines += end.row - start.row + 1\<close> adds a \<^verbatim>\<open>uint32_t\<close> to an \<^verbatim>\<open>int\<close>: the
  sum is taken in \<^verbatim>\<open>uint32_t\<close> and converted back.
\<close>

fun analyzeFileWideMetrics :: "TSNode option \<Rightarrow> TSNode \<Rightarrow> FileMetrics \<Rightarrow> FileMetrics"
  and analyzeFileWideMetrics_loop :: "TSNode \<Rightarrow> TSNode list \<Rightarrow> FileMetrics \<Rightarrow> FileMetrics"
  where
  "analyzeFileWideMetrics parent (TSNode t f sp he cs) metrics =
     (let m1 =
        (if parent = None then metrics\<lparr>total_lines := sint (end_row sp + 1)\<rparr>
         else metrics);
          m2 =
        (if t = ''comment'' then
           m1\<lparr>comment_lines :=
                 sint (word_of_int (comment_lines m1) + (end_row sp - start_row sp + 1))\<rparr>
         else m1)
      in analyzeFileWideMetrics_loop (TSNode t f sp he cs) cs m2)"
| "analyzeFileWideMetrics_loop node [] metrics = metrics"
| "analyzeFileWideMetrics_loop node (c # cs) metrics =
     analyzeFileWideMetrics_loop node cs (analyzeFileWideMetrics (Some node) c metrics)"

definition whitelist :: "string set" where
  "whitelist =
     {''i'', ''j'', ''k'', ''x'', ''y'', ''z'', ''os'', ''fs'', ''it'', ''c'', ''ts'', ''js''}"

fun analyzeNaming :: "TSNode \<Rightarrow> FileMetrics \<Rightarrow> string \<Rightarrow> error + FileMetrics"
  and analyzeNaming_loop :: "TSNode list \<Rightarrow> FileMetrics \<Rightarrow> string \<Rightarrow> error + FileMetrics"
  where
  "analyzeNaming (TSNode t f sp he cs) metrics sourceCode =
     (if t = ''identifier'' then
        (case getNodeText (Some (TSNode t f sp he cs)) sourceCode of
           Inl e \<Rightarrow> Inl e
         | Inr nm \<Rightarrow>
             analyzeNaming_loop cs
               (if length nm \<le> 2 \<and> nm \<notin> whitelist then
                  metrics\<lparr>naming_violations := naming_violations metrics + 1\<rparr>
                else metrics)
               sourceCode)
      else analyzeNaming_loop cs metrics sourceCode)"
| "analyzeNaming_loop [] metrics sourceCode = Inr metrics"
| "analyzeNaming_loop (c # cs) metrics sourceCode =
     (case analyzeNaming c metrics sourceCode of
        Inl e \<Rightarrow> Inl e
      | Inr metrics' \<Rightarrow> analyzeNaming_loop cs metrics' sourceCode)"

text \<open>
  \<^verbatim>\<open>Analyzer::analyze\<close>, called on the root node of a tree (whose parent is null). The
  member \<^verbatim>\<open>langStrategy\<close> may be a null pointer.
\<close>

definition analyze ::
  "LanguageStrategy option \<Rightarrow> TSNode \<Rightarrow> string \<Rightarrow> string \<Rightarrow> error + FileMetrics" where
  "analyze langStrategy rootNode filePath sourceCode =
     (let metrics = FileMetrics_init\<lparr>file_path := filePath\<rparr>
      in case langStrategy of
           None \<Rightarrow> Inr (calculateFinalScore metrics)
         | Some s \<Rightarrow>
             (case analyzeFunctions s None rootNode metrics sourceCode of
                Inl e \<Rightarrow> Inl e
              | Inr m1 \<Rightarrow>
                  (case analyzeNaming rootNode (analyzeFileWideMetrics None rootNode m1)
                          sourceCode of
                     Inl e \<Rightarrow> Inl e
                   | Inr m3 \<Rightarrow> Inr (calculateFinalScore m3))))"

section \<open>The driver (Parser.cpp, main.cpp)\<close>

text \<open>\<^verbatim>\<open>filePath.find_last_of('.')\<close>: the index of the last occurrence, if any.\<close>

fun find_last_of :: "string \<Rightarrow> char \<Rightarrow> nat option" where
  "find_last_of [] c = None"
| "find_last_of (x # xs) c =
     (case find_last_of xs c of
        Some i \<Rightarrow> Some (Suc i)
      | None \<Rightarrow> if x = c then Some 0 else None)"

definition extension_map :: "(string \<times> string) list" where
  "extension_map =
     [(''.cpp'', ''cpp''), (''.hpp'', ''cpp''), (''.h'', ''cpp''), (''.cc'', ''cpp''),
      (''.cxx'', ''cpp''), (''.c'', ''c''), (''.py'', ''python''), (''.java'', ''java''),
      (''.rs'', ''rust''), (''.go'', ''go''), (''.js'', ''javascript''),
      (''.ts'', ''typescript'')]"

definition getLanguageFromFile :: "string \<Rightarrow> string" where
  "getLanguageFromFile filePath =
     (case find_last_of filePath CHR ''.'' of
        None \<Rightarrow> ''unsupported''
      | Some pos \<Rightarrow>
          (case map_of extension_map (drop pos filePath) of
             Some language \<Rightarrow> language
           | None \<Rightarrow> ''unsupported''))"

text \<open>
  The tree-sitter library is not part of the repository. \<^verbatim>\<open>ts_parser_parse_string\<close> is
  a parameter of the model: given the grammar (by its name) and the source text it
  returns the root of the tree, or \<open>None\<close> for a null tree. The file system is a
  parameter as well: the content of a path, or \<open>None\<close> when the file cannot be opened.
\<close>

type_synonym ts_parser = "string \<Rightarrow> string \<Rightarrow> TSNode option"

type_synonym file_system = "string \<Rightarrow> string option"

definition Parser_getLanguage :: "string \<Rightarrow> string option" where
  "Parser_getLanguage language =
     (if language \<in> set [''c'', ''cpp'', ''python'', ''java'', ''rust'', ''go'',
                          ''javascript'', ''typescript'']
      then Some language else None)"

text \<open>
  \<^verbatim>\<open>Parser::parse\<close> returns its \<^verbatim>\<open>bool\<close> together with the member \<^verbatim>\<open>tree\<close> it leaves
  behind; \<^verbatim>\<open>Parser::getRootNode\<close> reads that member.
\<close>

definition Parser_parse :: "ts_parser \<Rightarrow> string \<Rightarrow> string \<Rightarrow> bool \<times> TSNode option" where
  "Parser_parse ts_parser_parse_string sourceCode language =
     (case Parser_getLanguage language of
        None \<Rightarrow> (False, None)
      | Some tsLanguage \<Rightarrow>
          let tree = ts_parser_parse_string tsLanguage sourceCode
          in ((case tree of None \<Rightarrow> False | Some rootNode \<Rightarrow> \<not> ts_node_has_error rootNode), tree))"

text \<open>
  \<^verbatim>\<open>analyzeFile\<close>. After a successful parse the tree is not null; the branch for a null
  root is there to make the model total and is never taken.
\<close>

definition analyzeFile :: "ts_parser \<Rightarrow> file_system \<Rightarrow> string \<Rightarrow> error + FileMetrics" where
  "analyzeFile ts_parser_parse_string fs filePath =
     (let language = getLanguageFromFile filePath
      in if language = ''unsupported'' then Inr FileMetrics_init
         else case fs filePath of
                None \<Rightarrow> Inr FileMetrics_init
              | Some sourceCode \<Rightarrow>
                  (case Parser_parse ts_parser_parse_string sourceCode language of
                     (True, Some rootNode) \<Rightarrow>
                       (case createStrategy language of
                          None \<Rightarrow> Inr FileMetrics_init
                        | Some strategy \<Rightarrow> analyze (Some strategy) rootNode filePath sourceCode)
                   | (True, None) \<Rightarrow> Inr FileMetrics_init
                   | (False, _) \<Rightarrow> Inr FileMetrics_init))"

text \<open>
  The loop of \<^verbatim>\<open>main\<close> over the regular files under the given path, in the order the
  directory iterator yields them (a single path when the argument is a file). An
  exception that escapes \<^verbatim>\<open>analyzeFile\<close> ends the program.
\<close>

fun main_loop ::
  "ts_parser \<Rightarrow> file_system \<Rightarrow> string list \<Rightarrow> FileMetrics list \<Rightarrow> error + FileMetrics list"
  where
  "main_loop ts_parser_parse_string fs [] all_metrics = Inr all_metrics"
| "main_loop ts_parser_parse_string fs (entry # entries) all_metrics =
     (case analyzeFile ts_parser_parse_string fs entry of
        Inl e \<Rightarrow> Inl e
      | Inr result \<Rightarrow>
          main_loop ts_parser_parse_string fs entries
            (if file_path result \<noteq> [] then all_metrics @ [result] else all_metrics))"

text \<open>The comparator that \<^verbatim>\<open>main\<close> hands to \<^verbatim>\<open>std::sort\<close>.\<close>

definition worse_first :: "FileMetrics \<Rightarrow> FileMetrics \<Rightarrow> bool" where
  "worse_first a b \<longleftrightarrow> shit_mountain_index a > shit_mountain_index b"

section \<open>The sort (\<^verbatim>\<open>std::sort\<close>)\<close>

text \<open>
  \<^verbatim>\<open>main\<close> ranks the reports with \<^verbatim>\<open>std::sort\<close>. The function belongs to the C++
  standard library, not to the repository; it is modelled as libstdc++ implements it
  (\<^verbatim>\<open>bits/stl_algo.h\<close>, \<^verbatim>\<open>bits/stl_heap.h\<close>): an introsort that partitions around the
  median of three while a range holds more than 16 elements, falls back to heap sort when
  the depth limit \<open>2 * lg n\<close> is used up, and finishes with an insertion sort. The vector
  is a list, an iterator is an index into it, and every loop is a recursive function that
  returns the updated list.
\<close>

definition iter_swap :: "'a list \<Rightarrow> nat \<Rightarrow> nat \<Rightarrow> 'a list" where
  "iter_swap xs i j = xs[i := xs ! j, j := xs ! i]"

fun lg :: "nat \<Rightarrow> nat" where
  "lg n = (if n < 2 then 0 else Suc (lg (n div 2)))"

declare lg.simps [simp del]

subsection \<open>Heap sort (\<^verbatim>\<open>__partial_sort\<close>)\<close>

text \<open>
  \<^verbatim>\<open>__push_heap\<close>, \<^verbatim>\<open>__adjust_heap\<close>, \<^verbatim>\<open>__pop_heap\<close>, \<^verbatim>\<open>__make_heap\<close>,
  \<^verbatim>\<open>__heap_select\<close> and \<^verbatim>\<open>__sort_heap\<close>. The value that the library moves out of the
  vector is the argument \<open>val\<close>; \<open>adjust_heap_loop\<close> returns the list together with the
  position of the hole.
\<close>

function push_heap ::
  "('a \<Rightarrow> 'a \<Rightarrow> bool) \<Rightarrow> 'a list \<Rightarrow> nat \<Rightarrow> nat \<Rightarrow> nat \<Rightarrow> 'a \<Rightarrow> 'a list" where
  "push_heap cmp xs first holeIndex topIndex val =
     (let parent = (holeIndex - 1) div 2
      in if holeIndex > topIndex \<and> cmp (xs ! (first + parent)) val then
           push_heap cmp (xs[first + holeIndex := xs ! (first + parent)]) first parent
             topIndex val
         else xs[first + holeIndex := val])"
  by pat_completeness auto
termination
  by (relation "measure (\<lambda>(cmp, xs, first, holeIndex, topIndex, val). holeIndex)") auto

declare push_heap.simps [simp del]

function adjust_heap_loop ::
  "('a \<Rightarrow> 'a \<Rightarrow> bool) \<Rightarrow> 'a list \<Rightarrow> nat \<Rightarrow> nat \<Rightarrow> nat \<Rightarrow> 'a list \<times> nat" where
  "adjust_heap_loop cmp xs first len secondChild =
     (if secondChild < (len - 1) div 2 then
        let child = 2 * (secondChild + 1);
            child' = (if cmp (xs ! (first + child)) (xs ! (first + (child - 1)))
                      then child - 1 else child)
        in adjust_heap_loop cmp (xs[first + secondChild := xs ! (first + child')]) first len
             child'
      else (xs, secondChild))"
  by pat_completeness auto
termination
  by (relation "measure (\<lambda>(cmp, xs, first, len, secondChild). (len - 1) div 2 - secondChild)")
     auto

declare adjust_heap_loop.simps [simp del]

definition adjust_heap ::
  "('a \<Rightarrow> 'a \<Rightarrow> bool) \<Rightarrow> 'a list \<Rightarrow> nat \<Rightarrow> nat \<Rightarrow> nat \<Rightarrow> 'a \<Rightarrow> 'a list" where
  "adjust_heap cmp xs first holeIndex len val =
     (let (xs1, secondChild) = adjust_heap_loop cmp xs first len holeIndex;
          (xs2, holeIndex2) =
            (if even len \<and> secondChild = (len - 2) div 2 then
               (xs1[first + secondChild := xs1 ! (first + (2 * (secondChild + 1) - 1))],
                2 * (secondChild + 1) - 1)
             else (xs1, secondChild))
      in push_heap cmp xs2 first holeIndex2 holeIndex val)"

definition pop_heap ::
  "('a \<Rightarrow> 'a \<Rightarrow> bool) \<Rightarrow> 'a list \<Rightarrow> nat \<Rightarrow> nat \<Rightarrow> nat \<Rightarrow> 'a list" where
  "pop_heap cmp xs first last' result =
     adjust_heap cmp (xs[result := xs ! first]) first 0 (last' - first) (xs ! result)"

fun make_heap_loop ::
  "('a \<Rightarrow> 'a \<Rightarrow> bool) \<Rightarrow> 'a list \<Rightarrow> nat \<Rightarrow> nat \<Rightarrow> nat \<Rightarrow> 'a list" where
  "make_heap_loop cmp xs first len 0 = adjust_heap cmp xs first 0 len (xs ! first)"
| "make_heap_loop cmp xs first len (Suc parent) =
     make_heap_loop cmp
       (adjust_heap cmp xs first (Suc parent) len (xs ! (first + Suc parent)))
       first len parent"

definition make_heap :: "('a \<Rightarrow> 'a \<Rightarrow> bool) \<Rightarrow> 'a list \<Rightarrow> nat \<Rightarrow> nat \<Rightarrow> 'a list" where
  "make_heap cmp xs first last' =
     (if last' - first < 2 then xs
      else make_heap_loop cmp xs first (last' - first) ((last' - first - 2) div 2))"

function heap_select_loop ::
  "('a \<Rightarrow> 'a \<Rightarrow> bool) \<Rightarrow> 'a list \<Rightarrow> nat \<Rightarrow> nat \<Rightarrow> nat \<Rightarrow> nat \<Rightarrow> 'a list" where
  "heap_select_loop cmp xs first middle i last' =
     (if i < last' then
        heap_select_loop cmp
          (if cmp (xs ! i) (xs ! first) then pop_heap cmp xs first middle i else xs)
          first middle (Suc i) last'
      else xs)"
  by pat_completeness auto
termination
  by (relation "measure (\<lambda>(cmp, xs, first, middle, i, last'). last' - i)") auto

declare heap_select_loop.simps [simp del]

function sort_heap :: "('a \<Rightarrow> 'a \<Rightarrow> bool) \<Rightarrow> 'a list \<Rightarrow> nat \<Rightarrow> nat \<Rightarrow> 'a list" where
  "sort_heap cmp xs first last' =
     (if last' - first > 1 then
        sort_heap cmp (pop_heap cmp xs first (last' - 1) (last' - 1)) first (last' - 1)
      else xs)"
  by pat_completeness auto
termination
  by (relation "measure (\<lambda>(cmp, xs, first, last'). last' - first)") auto

declare sort_heap.simps [simp del]

definition partial_sort ::
  "('a \<Rightarrow> 'a \<Rightarrow> bool) \<Rightarrow> 'a list \<Rightarrow> nat \<Rightarrow> nat \<Rightarrow> nat \<Rightarrow> 'a list" where
  "partial_sort cmp xs first middle last' =
     sort_heap cmp
       (heap_select_loop cmp (make_heap cmp xs first middle) first middle middle last')
       first middle"

subsection \<open>Partition (\<^verbatim>\<open>__unguarded_partition_pivot\<close>)\<close>

text \<open>
  \<open>scan_up\<close> and \<open>scan_down\<close> are the two inner loops of \<^verbatim>\<open>__unguarded_partition\<close>. In
  the library they have no bound check and rely on the pivot and the median as sentinels;
  leaving the vector is undefined behaviour there. The model stops the scans at the ends
  of the list.
\<close>

definition move_median_to_first ::
  "('a \<Rightarrow> 'a \<Rightarrow> bool) \<Rightarrow> 'a list \<Rightarrow> nat \<Rightarrow> nat \<Rightarrow> nat \<Rightarrow> nat \<Rightarrow> 'a list" where
  "move_median_to_first cmp xs result a b c =
     (if cmp (xs ! a) (xs ! b) then
        (if cmp (xs ! b) (xs ! c) then iter_swap xs result b
         else if cmp (xs ! a) (xs ! c) then iter_swap xs result c
         else iter_swap xs result a)
      else if cmp (xs ! a) (xs ! c) then iter_swap xs result a
      else if cmp (xs ! b) (xs ! c) then iter_swap xs result c
      else iter_swap xs result b)"

function scan_up :: "('a \<Rightarrow> 'a \<Rightarrow> bool) \<Rightarrow> 'a list \<Rightarrow> nat \<Rightarrow> nat \<Rightarrow> nat" where
  "scan_up cmp xs pivot first =
     (if first < length xs \<and> cmp (xs ! first) (xs ! pivot)
      then scan_up cmp xs pivot (Suc first) else first)"
  by pat_completeness auto
termination
  by (relation "measure (\<lambda>(cmp, xs, pivot, first). length xs - first)") auto

declare scan_up.simps [simp del]

function scan_down :: "('a \<Rightarrow> 'a \<Rightarrow> bool) \<Rightarrow> 'a list \<Rightarrow> nat \<Rightarrow> nat \<Rightarrow> nat" where
  "scan_down cmp xs pivot last' =
     (if 0 < last' \<and> cmp (xs ! pivot) (xs ! last')
      then scan_down cmp xs pivot (last' - 1) else last')"
  by pat_completeness auto
termination
  by (relation "measure (\<lambda>(cmp, xs, pivot, last'). last')") auto

declare scan_down.simps [simp del]

function unguarded_partition ::
  "('a \<Rightarrow> 'a \<Rightarrow> bool) \<Rightarrow> 'a list \<Rightarrow> nat \<Rightarrow> nat \<Rightarrow> nat \<Rightarrow> 'a list \<times> nat" where
  "unguarded_partition cmp xs first last' pivot =
     (let first1 = scan_up cmp xs pivot first;
          last1 = scan_down cmp xs pivot (last' - 1)
      in if \<not> first1 < last1 then (xs, first1)
         else unguarded_partition cmp (iter_swap xs first1 last1) (Suc first1) last1 pivot)"
  by pat_completeness auto
termination
proof (relation "measure (\<lambda>(cmp, xs, first, last', pivot). last' - first)", goal_cases)
  case 1
  then show ?case by simp
next
  case (2 cmp xs first last' pivot x xa)
  have up: "k \<le> scan_up c ys p k" for c :: "'a \<Rightarrow> 'a \<Rightarrow> bool" and ys p k
  proof (induction c ys p k rule: scan_up.induct)
    case (1 c ys p k)
    show ?case
      using 1 by (subst scan_up.simps) (auto simp: Suc_leD)
  qed
  have down: "scan_down c ys p k \<le> k" for c :: "'a \<Rightarrow> 'a \<Rightarrow> bool" and ys p k
  proof (induction c ys p k rule: scan_down.induct)
    case (1 c ys p k)
    show ?case
      using 1 by (subst scan_down.simps) (auto simp: le_diff_conv)
  qed
  show ?case
    using 2 up [of first cmp xs pivot] down [of cmp xs pivot "last' - 1"] by simp
qed

declare unguarded_partition.simps [simp del]

definition unguarded_partition_pivot ::
  "('a \<Rightarrow> 'a \<Rightarrow> bool) \<Rightarrow> 'a list \<Rightarrow> nat \<Rightarrow> nat \<Rightarrow> 'a list \<times> nat" where
  "unguarded_partition_pivot cmp xs first last' =
     (let mid = first + (last' - first) div 2
      in unguarded_partition cmp
           (move_median_to_first cmp xs first (first + 1) mid (last' - 1))
           (first + 1) last' first)"

function introsort_loop ::
  "('a \<Rightarrow> 'a \<Rightarrow> bool) \<Rightarrow> 'a list \<Rightarrow> nat \<Rightarrow> nat \<Rightarrow> nat \<Rightarrow> 'a list" where
  "introsort_loop cmp xs first last' depth_limit =
     (if last' - first > 16 then
        (if depth_limit = 0 then partial_sort cmp xs first last' last'
         else
           let (xs1, cut') = unguarded_partition_pivot cmp xs first last';
               xs2 = introsort_loop cmp xs1 cut' last' (depth_limit - 1)
           in introsort_loop cmp xs2 first cut' (depth_limit - 1))
      else xs)"
  by pat_completeness auto
termination
  by (relation "measure (\<lambda>(cmp, xs, first, last', depth_limit). depth_limit)") auto

declare introsort_loop.simps [simp del]

subsection \<open>Insertion sort (\<^verbatim>\<open>__final_insertion_sort\<close>)\<close>

text \<open>
  \<open>linear_insert_loop\<close> is the loop of \<^verbatim>\<open>__unguarded_linear_insert\<close>, which likewise has
  no bound check in the library; the model stops it at the start of the list.
  \<open>move_to_first\<close> is the \<^verbatim>\<open>std::move_backward\<close> of \<^verbatim>\<open>__insertion_sort\<close> followed by
  the assignment to \<^verbatim>\<open>*first\<close>.
\<close>

function linear_insert_loop ::
  "('a \<Rightarrow> 'a \<Rightarrow> bool) \<Rightarrow> 'a list \<Rightarrow> 'a \<Rightarrow> nat \<Rightarrow> 'a list" where
  "linear_insert_loop cmp xs val last' =
     (if 0 < last' \<and> cmp val (xs ! (last' - 1))
      then linear_insert_loop cmp (xs[last' := xs ! (last' - 1)]) val (last' - 1)
      else xs[last' := val])"
  by pat_completeness auto
termination
  by (relation "measure (\<lambda>(cmp, xs, val, last'). last')") auto

declare linear_insert_loop.simps [simp del]

definition unguarded_linear_insert ::
  "('a \<Rightarrow> 'a \<Rightarrow> bool) \<Rightarrow> 'a list \<Rightarrow> nat \<Rightarrow> 'a list" where
  "unguarded_linear_insert cmp xs last' = linear_insert_loop cmp xs (xs ! last') last'"

definition move_to_first :: "'a list \<Rightarrow> nat \<Rightarrow> nat \<Rightarrow> 'a list" where
  "move_to_first xs first i =
     take first xs @ xs ! i # take (i - first) (drop first xs) @ drop (Suc i) xs"

function insertion_sort_loop ::
  "('a \<Rightarrow> 'a \<Rightarrow> bool) \<Rightarrow> 'a list \<Rightarrow> nat \<Rightarrow> nat \<Rightarrow> nat \<Rightarrow> 'a list" where
  "insertion_sort_loop cmp xs first i last' =
     (if i < last' then
        insertion_sort_loop cmp
          (if cmp (xs ! i) (xs ! first) then move_to_first xs first i
           else unguarded_linear_insert cmp xs i)
          first (Suc i) last'
      else xs)"
  by pat_completeness auto
termination
  by (relation "measure (\<lambda>(cmp, xs, first, i, last'). last' - i)") auto

declare insertion_sort_loop.simps [simp del]

definition insertion_sort ::
  "('a \<Rightarrow> 'a \<Rightarrow> bool) \<Rightarrow> 'a list \<Rightarrow> nat \<Rightarrow> nat \<Rightarrow> 'a list" where
  "insertion_sort cmp xs first last' =
     (if first = last' then xs else insertion_sort_loop cmp xs first (first + 1) last')"

function unguarded_insertion_sort ::
  "('a \<Rightarrow> 'a \<Rightarrow> bool) \<Rightarrow> 'a list \<Rightarrow> nat \<Rightarrow> nat \<Rightarrow> 'a list" where
  "unguarded_insertion_sort cmp xs i last' =
     (if i < last' then unguarded_insertion_sort cmp (unguarded_linear_insert cmp xs i) (Suc i) last'
      else xs)"
  by pat_completeness auto
termination
  by (relation "measure (\<lambda>(cmp, xs, i, last'). last' - i)") auto

declare unguarded_insertion_sort.simps [simp del]

definition final_insertion_sort ::
  "('a \<Rightarrow> 'a \<Rightarrow> bool) \<Rightarrow> 'a list \<Rightarrow> nat \<Rightarrow> nat \<Rightarrow> 'a list" where
  "final_insertion_sort cmp xs first last' =
     (if last' - first > 16 then
        unguarded_insertion_sort cmp (insertion_sort cmp xs first (first + 16)) (first + 16)
          last'
      else insertion_sort cmp xs first last')"

text \<open>\<^verbatim>\<open>std::sort(first, last, comp)\<close> over the whole vector.\<close>

definition std_sort :: "('a \<Rightarrow> 'a \<Rightarrow> bool) \<Rightarrow> 'a list \<Rightarrow> 'a list" where
  "std_sort cmp xs =
     (if xs \<noteq> [] then
        final_insertion_sort cmp
          (introsort_loop cmp xs 0 (length xs) (lg (length xs) * 2)) 0 (length xs)
      else xs)"

section \<open>Notions used in the statements\<close>

text \<open>
  The two scoring policies in the words of the specification, to be compared with
  \<open>calculateFinalScore\<close>.
\<close>

definition policy_A :: "real \<Rightarrow> int \<Rightarrow> real" where
  "policy_A coverage violations =
     100 - (min 100 ((coverage / 30) * 100) * 0.7
            + max 0 (100 - real_of_int violations * 5) * 0.3)"

definition policy_B :: "real \<Rightarrow> real \<Rightarrow> real \<Rightarrow> int \<Rightarrow> real" where
  "policy_B avg_complexity avg_length coverage violations =
     100 - (max 0 (100 - (avg_complexity - 1) / (20 - 1) * 100) * 0.50
            + max 0 (100 - (avg_length - 10) / (100 - 10) * 100) * 0.15
            + max 0 (100 - \<bar>coverage - 15\<bar> / 15 * 100) * 0.15
            + max 0 (100 - real_of_int violations * 5) * 0.20)"

text \<open>
  The inputs of the two policies as the specification names them: the arithmetic mean of
  the function lengths and of the function complexities, and the comment coverage in
  percent, which a file without lines keeps at its stored value.
\<close>

definition mean :: "int list \<Rightarrow> real" where
  "mean xs = (if xs = [] then 0 else real_of_int (sum_list xs) / real (length xs))"

definition coverage :: "FileMetrics \<Rightarrow> real" where
  "coverage m =
     (if total_lines m > 0 then
        real_of_int (comment_lines m) / real_of_int (total_lines m) * 100
      else comment_coverage_ratio m)"

text \<open>
  Stability as the specification words it: the reports that share a legacy index appear
  in the output in the order they had in the input.
\<close>

definition keeps_tie_order :: "FileMetrics list \<Rightarrow> FileMetrics list \<Rightarrow> bool" where
  "keeps_tie_order xs ys \<longleftrightarrow>
     list_all
       (\<lambda>k. filter (\<lambda>r. shit_mountain_index r = k) ys
            = filter (\<lambda>r. shit_mountain_index r = k) xs)
       (map shit_mountain_index xs)"

text \<open>
  What \<^verbatim>\<open>std::sort\<close> asks of its comparator, a strict weak ordering: it is asymmetric, and
  its negation is transitive. \<open>ins\<close> inserts a value into a list that is ordered back to
  front, as \<^verbatim>\<open>__unguarded_linear_insert\<close> does in place going down from the last
  position.
\<close>

definition strict_weak_order :: "('a \<Rightarrow> 'a \<Rightarrow> bool) \<Rightarrow> bool" where
  "strict_weak_order cmp \<longleftrightarrow>
     (\<forall>a b. cmp a b \<longrightarrow> \<not> cmp b a) \<and> (\<forall>a b c. \<not> cmp b a \<longrightarrow> \<not> cmp c b \<longrightarrow> \<not> cmp c a)"

fun ins :: "('a \<Rightarrow> 'a \<Rightarrow> bool) \<Rightarrow> 'a \<Rightarrow> 'a list \<Rightarrow> 'a list" where
  "ins cmp val [] = [val]"
| "ins cmp val (r # rs) = (if cmp val r then r # ins cmp val rs else val # r # rs)"

text \<open>
  The nodes of a subtree in pre-order, the decision points among them (at most one per
  node, the complexity types consulted before the logical-operator test), and the nodes
  whose type is a function-definition type.
\<close>

fun subtree_nodes :: "TSNode \<Rightarrow> TSNode list" where
  "subtree_nodes (TSNode t f sp he cs) = TSNode t f sp he cs # concat (map subtree_nodes cs)"

definition decision_point :: "LanguageStrategy \<Rightarrow> TSNode \<Rightarrow> int" where
  "decision_point s n =
     (if ts_node_type n \<in> set (getComplexityNodeTypes s) then 1
      else if isLogicalOperator s n then 1
      else 0)"

definition decision_points :: "LanguageStrategy \<Rightarrow> TSNode \<Rightarrow> int" where
  "decision_points s n = sum_list (map (decision_point s) (subtree_nodes n))"

definition function_nodes :: "LanguageStrategy \<Rightarrow> TSNode \<Rightarrow> TSNode list" where
  "function_nodes s n =
     filter (\<lambda>d. ts_node_type d \<in> set (getFunctionDefinitionTypes s)) (subtree_nodes n)"








text \<open>
  Every node of a tree in pre-order, each with the flag whether one of its proper
  ancestors in the tree has a function-definition type. The discovered nodes are those of
  a function-definition type that are not exempt and not inside such an ancestor.
\<close>

fun nodes_in_context :: "LanguageStrategy \<Rightarrow> bool \<Rightarrow> TSNode \<Rightarrow> (bool \<times> TSNode) list" where
  "nodes_in_context s inside (TSNode t f sp he cs) =
     (inside, TSNode t f sp he cs)
     # concat
         (map (nodes_in_context s (inside \<or> t \<in> set (getFunctionDefinitionTypes s))) cs)"

definition discovered_nodes :: "LanguageStrategy \<Rightarrow> TSNode \<Rightarrow> TSNode list" where
  "discovered_nodes s n =
     map snd
       (filter
          (\<lambda>(inside, d).
             \<not> inside \<and> ts_node_type d \<in> set (getFunctionDefinitionTypes s)
             \<and> \<not> isSpecialFunction s d)
          (nodes_in_context s False n))"

text \<open>The lines and the complexity in a function record, and those of a node.\<close>

definition record_lines :: "FunctionMetric \<Rightarrow> int \<times> int \<times> int" where
  "record_lines func = (line_start func, line_end func, complexity func)"

definition node_lines :: "LanguageStrategy \<Rightarrow> TSNode \<Rightarrow> int \<times> int \<times> int" where
  "node_lines s d =
     (sint (start_row (ts_span d) + 1), sint (end_row (ts_span d) + 1),
      calculateComplexity s d)"


text \<open>The parser hands back a null tree, or a tree that holds a syntax error.\<close>

definition parse_fails :: "ts_parser \<Rightarrow> string \<Rightarrow> string \<Rightarrow> bool" where
  "parse_fails ts language sourceCode =
     (case ts language sourceCode of None \<Rightarrow> True | Some r \<Rightarrow> ts_node_has_error r)"

section \<open>Example inputs\<close>

text \<open>
  A node without a syntax error, given by its type, field name, first and last row, first
  and last byte, and children.
\<close>

definition syntax_node ::
  "string \<Rightarrow> string option \<Rightarrow> 32 word \<times> 32 word \<Rightarrow> 32 word \<times> 32 word \<Rightarrow> TSNode list \<Rightarrow> TSNode"
  where
  "syntax_node t f rows bytes cs =
     TSNode t f
       \<lparr>start_row = fst rows, end_row = snd rows,
        start_byte = fst bytes, end_byte = snd bytes\<rparr>
       False cs"

text \<open>A Python file with a function defined inside a function.\<close>

definition nested_def_source :: string where
  "nested_def_source =
     ''def outer():'' @ [CHR 0x0A] @
     ''    def inner(): pass''"

definition inner_def :: TSNode where
  "inner_def =
     syntax_node ''function_definition'' None (1, 1) (17, 34)
       [syntax_node ''def'' None (1, 1) (17, 20) [],
        syntax_node ''identifier'' (Some ''name'') (1, 1) (21, 26) [],
        syntax_node ''parameters'' (Some ''parameters'') (1, 1) (26, 28)
          [syntax_node ''('' None (1, 1) (26, 27) [],
           syntax_node '')'' None (1, 1) (27, 28) []],
        syntax_node '':'' None (1, 1) (28, 29) [],
        syntax_node ''block'' (Some ''body'') (1, 1) (30, 34)
          [syntax_node ''pass_statement'' None (1, 1) (30, 34)
             [syntax_node ''pass'' None (1, 1) (30, 34) []]]]"

definition outer_def :: TSNode where
  "outer_def =
     syntax_node ''function_definition'' None (0, 1) (0, 34)
       [syntax_node ''def'' None (0, 0) (0, 3) [],
        syntax_node ''identifier'' (Some ''name'') (0, 0) (4, 9) [],
        syntax_node ''parameters'' (Some ''parameters'') (0, 0) (9, 11)
          [syntax_node ''('' None (0, 0) (9, 10) [],
           syntax_node '')'' None (0, 0) (10, 11) []],
        syntax_node '':'' None (0, 0) (11, 12) [],
        syntax_node ''block'' (Some ''body'') (1, 1) (17, 34)
          [inner_def]]"

definition nested_def_tree :: TSNode where
  "nested_def_tree =
     syntax_node ''module'' None (0, 1) (0, 34)
       [outer_def]"

text \<open>The C function \<^verbatim>\<open>int sign(int val) { if (val > 0 && val < 9) return 1; return 0; }\<close>.\<close>

definition sign_def :: TSNode where
  "sign_def =
     syntax_node ''function_definition'' None (0, 0) (0, 65)
       [syntax_node ''primitive_type'' (Some ''type'') (0, 0) (0, 3) [],
        syntax_node ''function_declarator'' (Some ''declarator'') (0, 0) (4, 17)
          [syntax_node ''identifier'' (Some ''declarator'') (0, 0) (4, 8) [],
           syntax_node ''parameter_list'' (Some ''parameters'') (0, 0) (8, 17)
             [syntax_node ''('' None (0, 0) (8, 9) [],
              syntax_node ''parameter_declaration'' None (0, 0) (9, 16)
                [syntax_node ''primitive_type'' (Some ''type'') (0, 0) (9, 12) [],
                 syntax_node ''identifier'' (Some ''declarator'') (0, 0) (13, 16) []],
              syntax_node '')'' None (0, 0) (16, 17) []]],
        syntax_node ''compound_statement'' (Some ''body'') (0, 0) (18, 65)
          [syntax_node ''{'' None (0, 0) (18, 19) [],
           syntax_node ''if_statement'' None (0, 0) (20, 53)
             [syntax_node ''if'' None (0, 0) (20, 22) [],
              syntax_node ''parenthesized_expression'' (Some ''condition'') (0, 0) (23, 43)
                [syntax_node ''('' None (0, 0) (23, 24) [],
                 syntax_node ''binary_expression'' None (0, 0) (24, 42)
                   [syntax_node ''binary_expression'' (Some ''left'') (0, 0) (24, 31)
                      [syntax_node ''identifier'' (Some ''left'') (0, 0) (24, 27) [],
                       syntax_node ''>'' (Some ''operator'') (0, 0) (28, 29) [],
                       syntax_node ''number_literal'' (Some ''right'') (0, 0) (30, 31) []],
                    syntax_node ''&&'' (Some ''operator'') (0, 0) (32, 34) [],
                    syntax_node ''binary_expression'' (Some ''right'') (0, 0) (35, 42)
                      [syntax_node ''identifier'' (Some ''left'') (0, 0) (35, 38) [],
                       syntax_node ''<'' (Some ''operator'') (0, 0) (39, 40) [],
                       syntax_node ''number_literal'' (Some ''right'') (0, 0) (41, 42) []]],
                 syntax_node '')'' None (0, 0) (42, 43) []],
              syntax_node ''return_statement'' (Some ''consequence'') (0, 0) (44, 53)
                [syntax_node ''return'' None (0, 0) (44, 50) [],
                 syntax_node ''number_literal'' None (0, 0) (51, 52) [],
                 syntax_node '';'' None (0, 0) (52, 53) []]],
           syntax_node ''return_statement'' None (0, 0) (54, 63)
             [syntax_node ''return'' None (0, 0) (54, 60) [],
              syntax_node ''number_literal'' None (0, 0) (61, 62) [],
              syntax_node '';'' None (0, 0) (62, 63) []],
           syntax_node ''}'' None (0, 0) (64, 65) []]]"








text \<open>A C file of 20 lines: three comment lines, a function on one line, and a table.\<close>

definition primes_source :: string where
  "primes_source =
     ''/* The first primes, */'' @ [CHR 0x0A] @
     ''/* kept in a table */'' @ [CHR 0x0A] @
     ''/* for fast lookup. */'' @ [CHR 0x0A] @
     ''int count(void) { return 14; }'' @ [CHR 0x0A] @
     ''static const int primes[] = {'' @ [CHR 0x0A] @
     ''  2,'' @ [CHR 0x0A] @
     ''  3,'' @ [CHR 0x0A] @
     ''  5,'' @ [CHR 0x0A] @
     ''  7,'' @ [CHR 0x0A] @
     ''  11,'' @ [CHR 0x0A] @
     ''  13,'' @ [CHR 0x0A] @
     ''  17,'' @ [CHR 0x0A] @
     ''  19,'' @ [CHR 0x0A] @
     ''  23,'' @ [CHR 0x0A] @
     ''  29,'' @ [CHR 0x0A] @
     ''  31,'' @ [CHR 0x0A] @
     ''  37,'' @ [CHR 0x0A] @
     ''  41,'' @ [CHR 0x0A] @
     ''  43,'' @ [CHR 0x0A] @
     ''};''"

definition count_def :: TSNode where
  "count_def =
     syntax_node ''function_definition'' None (3, 3) (69, 99)
       [syntax_node ''primitive_type'' (Some ''type'') (3, 3) (69, 72) [],
        syntax_node ''function_declarator'' (Some ''declarator'') (3, 3) (73, 84)
          [syntax_node ''identifier'' (Some ''declarator'') (3, 3) (73, 78) [],
           syntax_node ''parameter_list'' (Some ''parameters'') (3, 3) (78, 84)
             [syntax_node ''('' None (3, 3) (78, 79) [],
              syntax_node ''parameter_declaration'' None (3, 3) (79, 83)
                [syntax_node ''primitive_type'' (Some ''type'') (3, 3) (79, 83) []],
              syntax_node '')'' None (3, 3) (83, 84) []]],
        syntax_node ''compound_statement'' (Some ''body'') (3, 3) (85, 99)
          [syntax_node ''{'' None (3, 3) (85, 86) [],
           syntax_node ''return_statement'' None (3, 3) (87, 97)
             [syntax_node ''return'' None (3, 3) (87, 93) [],
              syntax_node ''number_literal'' None (3, 3) (94, 96) [],
              syntax_node '';'' None (3, 3) (96, 97) []],
           syntax_node ''}'' None (3, 3) (98, 99) []]]"

definition primes_table :: TSNode where
  "primes_table =
     syntax_node ''declaration'' None (4, 19) (100, 212)
       [syntax_node ''storage_class_specifier'' None (4, 4) (100, 106)
          [syntax_node ''static'' None (4, 4) (100, 106) []],
        syntax_node ''type_qualifier'' None (4, 4) (107, 112)
          [syntax_node ''const'' None (4, 4) (107, 112) []],
        syntax_node ''primitive_type'' (Some ''type'') (4, 4) (113, 116) [],
        syntax_node ''init_declarator'' (Some ''declarator'') (4, 19) (117, 211)
          [syntax_node ''array_declarator'' (Some ''declarator'') (4, 4) (117, 125)
             [syntax_node ''identifier'' (Some ''declarator'') (4, 4) (117, 123) [],
              syntax_node ''['' None (4, 4) (123, 124) [],
              syntax_node '']'' None (4, 4) (124, 125) []],
           syntax_node ''='' None (4, 4) (126, 127) [],
           syntax_node ''initializer_list'' (Some ''value'') (4, 19) (128, 211)
             [syntax_node ''{'' None (4, 4) (128, 129) [],
              syntax_node ''number_literal'' None (5, 5) (132, 133) [],
              syntax_node '','' None (5, 5) (133, 134) [],
              syntax_node ''number_literal'' None (6, 6) (137, 138) [],
              syntax_node '','' None (6, 6) (138, 139) [],
              syntax_node ''number_literal'' None (7, 7) (142, 143) [],
              syntax_node '','' None (7, 7) (143, 144) [],
              syntax_node ''number_literal'' None (8, 8) (147, 148) [],
              syntax_node '','' None (8, 8) (148, 149) [],
              syntax_node ''number_literal'' None (9, 9) (152, 154) [],
              syntax_node '','' None (9, 9) (154, 155) [],
              syntax_node ''number_literal'' None (10, 10) (158, 160) [],
              syntax_node '','' None (10, 10) (160, 161) [],
              syntax_node ''number_literal'' None (11, 11) (164, 166) [],
              syntax_node '','' None (11, 11) (166, 167) [],
              syntax_node ''number_literal'' None (12, 12) (170, 172) [],
              syntax_node '','' None (12, 12) (172, 173) [],
              syntax_node ''number_literal'' None (13, 13) (176, 178) [],
              syntax_node '','' None (13, 13) (178, 179) [],
              syntax_node ''number_literal'' None (14, 14) (182, 184) [],
              syntax_node '','' None (14, 14) (184, 185) [],
              syntax_node ''number_literal'' None (15, 15) (188, 190) [],
              syntax_node '','' None (15, 15) (190, 191) [],
              syntax_node ''number_literal'' None (16, 16) (194, 196) [],
              syntax_node '','' None (16, 16) (196, 197) [],
              syntax_node ''number_literal'' None (17, 17) (200, 202) [],
              syntax_node '','' None (17, 17) (202, 203) [],
              syntax_node ''number_literal'' None (18, 18) (206, 208) [],
              syntax_node '','' None (18, 18) (208, 209) [],
              syntax_node ''}'' None (19, 19) (210, 211) []]],
        syntax_node '';'' None (19, 19) (211, 212) []]"

definition primes_tree :: TSNode where
  "primes_tree =
     syntax_node ''translation_unit'' None (0, 19) (0, 212)
       [syntax_node ''comment'' None (0, 0) (0, 23) [],
        syntax_node ''comment'' None (1, 1) (24, 45) [],
        syntax_node ''comment'' None (2, 2) (46, 68) [],
        count_def,
        primes_table]"

text \<open>
  Seventeen reports in discovery order that share the legacy index 0.
\<close>

definition tied_reports :: "FileMetrics list" where
  "tied_reports =
     map (\<lambda>p. FileMetrics_init\<lparr>file_path := p\<rparr>)
       [''a.c'', ''b.c'', ''c.c'', ''d.c'', ''e.c'', ''f.c'', ''g.c'', ''h.c'', ''i.c'',
        ''j.c'', ''k.c'', ''l.c'', ''m.c'', ''n.c'', ''o.c'', ''p.c'', ''q.c'']"

text \<open>
  A directory with two Python files. The parser returns a tree flagged with a syntax
  error for the first and the tree above for the second.
\<close>

definition broken_source :: string where
  "broken_source = ''def outer(:''"

definition broken_tree :: TSNode where
  "broken_tree =
     TSNode ''module'' None
       \<lparr>start_row = 0, end_row = 0, start_byte = 0, end_byte = 11\<rparr> True
       [TSNode ''ERROR'' None
          \<lparr>start_row = 0, end_row = 0, start_byte = 0, end_byte = 11\<rparr> True []]"

definition example_fs :: file_system where
  "example_fs path =
     (if path = ''broken.py'' then Some broken_source
      else if path = ''nested.py'' then Some nested_def_source
      else None)"

definition example_parser :: ts_parser where
  "example_parser language sourceCode =
     (if sourceCode = broken_source then Some broken_tree
      else if sourceCode = nested_def_source then Some nested_def_tree
      else None)"

section \<open>Properties of the score model\<close>

text \<open>
  C7. Raising the average function complexity never raises the complexity score, and
  raising the average function length never raises the length score; each sub-score
  depends on its own raw metric only.
\<close>

theorem score_monotone:
  "a \<le> b \<Longrightarrow> complexity_score b \<le> complexity_score a \<and> length_score b \<le> length_score a"
  unfolding complexity_score_def length_score_def
  by (auto simp: max_def divide_right_mono)

theorem score_monotone_witness:
  "(2::real) \<le> 50 \<and> complexity_score 50 \<le> complexity_score 2
     \<and> length_score 50 \<le> length_score 2"
  using score_monotone [of 2 50] by simp

text \<open>
  C8. An average complexity of exactly 1 gives a complexity score of exactly 100, and an
  average complexity of 20 or more gives exactly 0.
\<close>

theorem complexity_score_boundary:
  "complexity_score 1 = 100 \<and> (20 \<le> a \<longrightarrow> complexity_score a = 0)"
  unfolding complexity_score_def
  by (auto simp: max_def)

theorem complexity_score_boundary_witness:
  "complexity_score 1 = 100 \<and> (20::real) \<le> 37 \<and> complexity_score 37 = 0"
  using complexity_score_boundary [of 37] by simp

section \<open>The ranking\<close>

subsection \<open>The sort returns a permutation: exchanges\<close>

lemma scan_up_ge: "first \<le> scan_up cmp xs pivot first"
proof (induction cmp xs pivot first rule: scan_up.induct)
  case (1 cmp xs pivot first)
  show ?case
    using 1 by (subst scan_up.simps) (auto simp: Suc_leD)
qed

lemma scan_down_le: "scan_down cmp xs pivot last' \<le> last'"
proof (induction cmp xs pivot last' rule: scan_down.induct)
  case (1 cmp xs pivot last')
  show ?case
    using 1 by (subst scan_down.simps) (auto simp: le_diff_conv)
qed

lemma length_iter_swap [simp]: "length (iter_swap xs i j) = length xs"
  by (simp add: iter_swap_def)

lemma mset_iter_swap:
  "i < length xs \<Longrightarrow> j < length xs \<Longrightarrow> mset (iter_swap xs i j) = mset xs"
  by (simp add: iter_swap_def mset_swap)

lemma mset_move_hole:
  assumes "i < length xs" and "j < length xs"
  shows "mset (xs[i := xs ! j, j := v]) = mset (xs[i := v])"
proof (cases "i = j")
  case True
  then show ?thesis by simp
next
  case False
  define ys where "ys = xs[i := v]"
  have l: "i < length ys" "j < length ys"
    using assms by (simp_all add: ys_def)
  have "ys[i := ys ! j, j := ys ! i] = xs[i := xs ! j, j := v]"
    using assms False by (simp add: ys_def)
  then have "mset (xs[i := xs ! j, j := v]) = mset (ys[i := ys ! j, j := ys ! i])"
    by simp
  also have "\<dots> = mset ys"
    using l by (simp add: mset_swap)
  finally show ?thesis
    by (simp add: ys_def)
qed

subsection \<open>The sort returns a permutation: heap sort\<close>

lemma push_heap_mset:
  "first + holeIndex < length xs \<Longrightarrow>
   length (push_heap cmp xs first holeIndex topIndex val) = length xs
   \<and> mset (push_heap cmp xs first holeIndex topIndex val) = mset (xs[first + holeIndex := val])"
proof (induction cmp xs first holeIndex topIndex val rule: push_heap.induct)
  case (1 cmp xs first holeIndex topIndex val)
  let ?parent = "(holeIndex - 1) div 2"
  show ?case
  proof (cases "holeIndex > topIndex \<and> cmp (xs ! (first + ?parent)) val")
    case True
    have p: "first + ?parent < length xs"
      using 1(2) by simp
    have ih: "length (push_heap cmp (xs[first + holeIndex := xs ! (first + ?parent)]) first
                 ?parent topIndex val) = length xs
        \<and> mset (push_heap cmp (xs[first + holeIndex := xs ! (first + ?parent)]) first
                 ?parent topIndex val)
            = mset (xs[first + holeIndex := xs ! (first + ?parent), first + ?parent := val])"
      using 1(1) [OF refl True] p by simp
    show ?thesis
      using True ih mset_move_hole [OF 1(2) p, of val]
      by (subst push_heap.simps, subst push_heap.simps) (simp add: Let_def)
  next
    case False
    then show ?thesis
      by (subst push_heap.simps, subst push_heap.simps) (auto simp: Let_def)
  qed
qed

lemma adjust_heap_loop_mset:
  "first + len \<le> length xs \<Longrightarrow> secondChild < len \<Longrightarrow>
   adjust_heap_loop cmp xs first len secondChild = (xs1, hole) \<Longrightarrow>
   length xs1 = length xs \<and> hole < len
   \<and> mset (xs1[first + hole := v]) = mset (xs[first + secondChild := v])"
proof (induction cmp xs first len secondChild arbitrary: xs1 hole
       rule: adjust_heap_loop.induct)
  case (1 cmp xs first len secondChild)
  show ?case
  proof (cases "secondChild < (len - 1) div 2")
    case True
    define child where "child = 2 * (secondChild + 1)"
    define child' where
      "child' = (if cmp (xs ! (first + child)) (xs ! (first + (child - 1)))
                 then child - 1 else child)"
    have c: "child' < len"
      using True by (auto simp: child'_def child_def)
    have b1: "first + secondChild < length xs" and b2: "first + child' < length xs"
      using 1(2,3) c by simp_all
    have r: "adjust_heap_loop cmp (xs[first + secondChild := xs ! (first + child')]) first len
               child' = (xs1, hole)"
      using 1(4) True
      by (subst (asm) adjust_heap_loop.simps) (simp only: if_True Let_def child'_def child_def)
    have ih: "length xs1 = length xs \<and> hole < len
        \<and> mset (xs1[first + hole := v])
            = mset (xs[first + secondChild := xs ! (first + child'), first + child' := v])"
      using 1(1) [OF True child_def child'_def _ c r] 1(2) by simp
    show ?thesis
      using ih mset_move_hole [OF b1 b2, of v] by simp
  next
    case False
    then have "xs1 = xs" and "hole = secondChild"
      using 1(4) by (subst (asm) adjust_heap_loop.simps; simp)+
    then show ?thesis
      using 1(3) by simp
  qed
qed

lemma adjust_heap_mset:
  assumes "first + len \<le> length xs" and "holeIndex < len"
  shows "length (adjust_heap cmp xs first holeIndex len val) = length xs
     \<and> mset (adjust_heap cmp xs first holeIndex len val) = mset (xs[first + holeIndex := val])"
proof -
  obtain xs1 sc where l: "adjust_heap_loop cmp xs first len holeIndex = (xs1, sc)"
    by (cases "adjust_heap_loop cmp xs first len holeIndex")
  have a: "length xs1 = length xs" and b: "sc < len"
    and m: "\<And>v. mset (xs1[first + sc := v]) = mset (xs[first + holeIndex := v])"
    using adjust_heap_loop_mset [OF assms l] by simp_all
  show ?thesis
  proof (cases "even len \<and> sc = (len - 2) div 2")
    case True
    then have k: "2 * (sc + 1) - 1 < len"
      using b by presburger
    have b1: "first + sc < length xs1" and b2: "first + (2 * (sc + 1) - 1) < length xs1"
      using a b k assms(1) by simp_all
    have "mset (adjust_heap cmp xs first holeIndex len val)
        = mset (xs1[first + sc := xs1 ! (first + (2 * (sc + 1) - 1)),
                    first + (2 * (sc + 1) - 1) := val])"
      using True l b2 push_heap_mset [of first "2 * (sc + 1) - 1"
          "xs1[first + sc := xs1 ! (first + (2 * (sc + 1) - 1))]" cmp holeIndex val]
      by (simp add: adjust_heap_def)
    moreover have "length (adjust_heap cmp xs first holeIndex len val) = length xs"
      using True l b2 a push_heap_mset [of first "2 * (sc + 1) - 1"
          "xs1[first + sc := xs1 ! (first + (2 * (sc + 1) - 1))]" cmp holeIndex val]
      by (simp add: adjust_heap_def)
    ultimately show ?thesis
      using mset_move_hole [OF b1 b2, of val] m [of val] by simp
  next
    case False
    have b1: "first + sc < length xs1"
      using a b assms(1) by simp
    show ?thesis
      using False l a m [of val] push_heap_mset [OF b1, of cmp holeIndex val]
      by (auto simp: adjust_heap_def)
  qed
qed

lemma pop_heap_mset:
  assumes "first < last'" and "last' \<le> length xs" and "result < length xs"
  shows "length (pop_heap cmp xs first last' result) = length xs
     \<and> mset (pop_heap cmp xs first last' result) = mset xs"
proof -
  have f: "first < length xs"
    using assms by simp
  have "length (pop_heap cmp xs first last' result) = length xs
     \<and> mset (pop_heap cmp xs first last' result)
         = mset (xs[result := xs ! first, first := xs ! result])"
    using assms adjust_heap_mset [of first "last' - first" "xs[result := xs ! first]" 0 cmp
        "xs ! result"]
    by (simp add: pop_heap_def)
  then show ?thesis
    using mset_swap [OF f assms(3)] by simp
qed

lemma make_heap_loop_mset:
  "first + len \<le> length xs \<Longrightarrow> parent < len \<Longrightarrow>
   length (make_heap_loop cmp xs first len parent) = length xs
   \<and> mset (make_heap_loop cmp xs first len parent) = mset xs"
proof (induction parent arbitrary: xs)
  case 0
  then show ?case
    using adjust_heap_mset [of first len xs 0 cmp "xs ! first"] by simp
next
  case (Suc parent)
  have a: "length (adjust_heap cmp xs first (Suc parent) len (xs ! (first + Suc parent)))
             = length xs
     \<and> mset (adjust_heap cmp xs first (Suc parent) len (xs ! (first + Suc parent))) = mset xs"
    using Suc(2,3) adjust_heap_mset [of first len xs "Suc parent" cmp
        "xs ! (first + Suc parent)"]
    by simp
  show ?case
    using Suc(1) [of "adjust_heap cmp xs first (Suc parent) len (xs ! (first + Suc parent))"]
      Suc(2,3) a
    by simp
qed

lemma make_heap_mset:
  "last' \<le> length xs \<Longrightarrow>
   length (make_heap cmp xs first last') = length xs
   \<and> mset (make_heap cmp xs first last') = mset xs"
  using make_heap_loop_mset [of first "last' - first" xs "(last' - first - 2) div 2" cmp]
  by (auto simp: make_heap_def)

lemma sort_heap_mset:
  "last' \<le> length xs \<Longrightarrow>
   length (sort_heap cmp xs first last') = length xs
   \<and> mset (sort_heap cmp xs first last') = mset xs"
proof (induction cmp xs first last' rule: sort_heap.induct)
  case (1 cmp xs first last')
  show ?case
  proof (cases "last' - first > 1")
    case True
    have p: "length (pop_heap cmp xs first (last' - 1) (last' - 1)) = length xs
       \<and> mset (pop_heap cmp xs first (last' - 1) (last' - 1)) = mset xs"
      using True 1(2) pop_heap_mset [of first "last' - 1" xs "last' - 1" cmp] by simp
    show ?thesis
      using True p 1(1) [OF True] 1(2)
      by (subst sort_heap.simps, subst sort_heap.simps) simp
  next
    case False
    then show ?thesis
      by (subst sort_heap.simps, subst sort_heap.simps) simp
  qed
qed

lemma partial_sort_mset:
  "last' \<le> length xs \<Longrightarrow>
   length (partial_sort cmp xs first last' last') = length xs
   \<and> mset (partial_sort cmp xs first last' last') = mset xs"
proof -
  assume a: "last' \<le> length xs"
  have h: "\<And>ys. heap_select_loop cmp ys first last' last' last' = ys"
    by (subst heap_select_loop.simps) simp
  show ?thesis
    using a make_heap_mset [OF a, of cmp first]
      sort_heap_mset [of last' "make_heap cmp xs first last'" cmp first]
    by (simp add: partial_sort_def h)
qed

subsection \<open>The sort returns a permutation: partition and introsort\<close>

lemma move_median_to_first_mset:
  assumes "result < length xs" and "a < length xs" and "b < length xs" and "c < length xs"
  shows "length (move_median_to_first cmp xs result a b c) = length xs
     \<and> mset (move_median_to_first cmp xs result a b c) = mset xs"
  using assms by (simp add: move_median_to_first_def mset_iter_swap)

lemma scan_up_le: "first \<le> length xs \<Longrightarrow> scan_up cmp xs pivot first \<le> length xs"
proof (induction cmp xs pivot first rule: scan_up.induct)
  case (1 cmp xs pivot first)
  show ?case
    using 1 by (subst scan_up.simps) auto
qed

lemma unguarded_partition_unfold:
  "unguarded_partition cmp xs first last' pivot =
     (if scan_up cmp xs pivot first < scan_down cmp xs pivot (last' - 1) then
        unguarded_partition cmp
          (iter_swap xs (scan_up cmp xs pivot first) (scan_down cmp xs pivot (last' - 1)))
          (Suc (scan_up cmp xs pivot first)) (scan_down cmp xs pivot (last' - 1)) pivot
      else (xs, scan_up cmp xs pivot first))"
  by (subst unguarded_partition.simps) (simp add: Let_def)

lemma unguarded_partition_mset:
  "first \<le> length xs \<Longrightarrow> last' \<le> length xs \<Longrightarrow>
   unguarded_partition cmp xs first last' pivot = (xs1, cut') \<Longrightarrow>
   length xs1 = length xs \<and> mset xs1 = mset xs \<and> cut' \<le> length xs"
proof (induction cmp xs first last' pivot arbitrary: xs1 cut' rule: unguarded_partition.induct)
  case (1 cmp xs first last' pivot)
  define first1 where "first1 = scan_up cmp xs pivot first"
  define last1 where "last1 = scan_down cmp xs pivot (last' - 1)"
  have f: "first1 \<le> length xs"
    using 1(2) by (simp add: first1_def scan_up_le)
  have l: "last1 \<le> last' - 1"
    by (simp add: last1_def scan_down_le)
  have u: "unguarded_partition cmp xs first last' pivot =
     (if first1 < last1 then
        unguarded_partition cmp (iter_swap xs first1 last1) (Suc first1) last1 pivot
      else (xs, first1))"
    unfolding first1_def last1_def by (rule unguarded_partition_unfold)
  show ?case
  proof (cases "first1 < last1")
    case True
    have b: "first1 < length xs" "last1 < length xs"
      using True l 1(3) by simp_all
    have r: "unguarded_partition cmp (iter_swap xs first1 last1) (Suc first1) last1 pivot
               = (xs1, cut')"
      using 1(4) u True by simp
    have n: "\<not> \<not> first1 < last1"
      using True by simp
    have b1: "Suc first1 \<le> length (iter_swap xs first1 last1)"
      and b2: "last1 \<le> length (iter_swap xs first1 last1)"
      using b by simp_all
    have "length xs1 = length (iter_swap xs first1 last1)
        \<and> mset xs1 = mset (iter_swap xs first1 last1)
        \<and> cut' \<le> length (iter_swap xs first1 last1)"
      by (rule 1(1) [OF first1_def last1_def n b1 b2 r])
    then show ?thesis
      using b by (simp add: mset_iter_swap)
  next
    case False
    then have "(xs1, cut') = (xs, first1)"
      using 1(4) u by simp
    then show ?thesis
      using f by simp
  qed
qed

lemma unguarded_partition_pivot_mset:
  assumes "last' \<le> length xs" and "1 < last' - first"
    and "unguarded_partition_pivot cmp xs first last' = (xs1, cut')"
  shows "length xs1 = length xs \<and> mset xs1 = mset xs \<and> cut' \<le> length xs"
proof -
  define ys where
    "ys = move_median_to_first cmp xs first (first + 1) (first + (last' - first) div 2)
            (last' - 1)"
  have m: "length ys = length xs \<and> mset ys = mset xs"
    unfolding ys_def using assms(1,2) by (intro move_median_to_first_mset) auto
  have "unguarded_partition cmp ys (first + 1) last' first = (xs1, cut')"
    using assms(3) by (simp add: unguarded_partition_pivot_def Let_def ys_def)
  then have "length xs1 = length ys \<and> mset xs1 = mset ys \<and> cut' \<le> length ys"
    using assms(1,2) m by (intro unguarded_partition_mset [of "first + 1" ys last' cmp first]) auto
  then show ?thesis
    using m by simp
qed

lemma introsort_loop_mset:
  "last' \<le> length xs \<Longrightarrow>
   length (introsort_loop cmp xs first last' depth_limit) = length xs
   \<and> mset (introsort_loop cmp xs first last' depth_limit) = mset xs"
proof (induction cmp xs first last' depth_limit rule: introsort_loop.induct)
  case (1 cmp xs first last' depth_limit)
  show ?case
  proof (cases "last' - first > 16")
    case big: True
    show ?thesis
    proof (cases "depth_limit = 0")
      case True
      then show ?thesis
        using big partial_sort_mset [OF 1(3), of cmp first]
        by (subst introsort_loop.simps, subst introsort_loop.simps) simp
    next
      case False
      obtain xs1 cut' where p: "unguarded_partition_pivot cmp xs first last' = (xs1, cut')"
        by (cases "unguarded_partition_pivot cmp xs first last'")
      have a: "length xs1 = length xs \<and> mset xs1 = mset xs \<and> cut' \<le> length xs"
        using big by (intro unguarded_partition_pivot_mset [OF 1(3) _ p]) simp
      define xs2 where "xs2 = introsort_loop cmp xs1 cut' last' (depth_limit - 1)"
      have b: "length xs2 = length xs1 \<and> mset xs2 = mset xs1"
        unfolding xs2_def using 1(1) [OF big False p [symmetric] refl] 1(3) a by simp
      have c: "length (introsort_loop cmp xs2 first cut' (depth_limit - 1)) = length xs2
          \<and> mset (introsort_loop cmp xs2 first cut' (depth_limit - 1)) = mset xs2"
        using 1(2) [OF big False p [symmetric] refl xs2_def] a b by simp
      have "introsort_loop cmp xs first last' depth_limit
              = introsort_loop cmp xs2 first cut' (depth_limit - 1)"
        using big False p
        by (subst introsort_loop.simps) (simp add: Let_def xs2_def)
      then show ?thesis
        using a b c by simp
    qed
  next
    case False
    then show ?thesis
      by (subst introsort_loop.simps, subst introsort_loop.simps) simp
  qed
qed

subsection \<open>The sort returns an ordered list\<close>

lemma swo_asym: "strict_weak_order cmp \<Longrightarrow> cmp a b \<Longrightarrow> \<not> cmp b a"
  unfolding strict_weak_order_def by blast

lemma swo_trans:
  "strict_weak_order cmp \<Longrightarrow> \<not> cmp b a \<Longrightarrow> \<not> cmp c b \<Longrightarrow> \<not> cmp c a"
  unfolding strict_weak_order_def by blast

lemma mset_ins: "mset (ins cmp val rs) = add_mset val (mset rs)"
  by (induction rs) simp_all

lemma set_ins: "set (ins cmp val rs) = insert val (set rs)"
  by (induction rs) auto

lemma length_ins: "length (ins cmp val rs) = Suc (length rs)"
  by (induction rs) simp_all

lemma sorted_ins:
  assumes swo: "strict_weak_order cmp"
  shows "sorted_wrt (\<lambda>a b. \<not> cmp a b) rs \<Longrightarrow> sorted_wrt (\<lambda>a b. \<not> cmp a b) (ins cmp val rs)"
proof (induction rs)
  case Nil
  then show ?case by simp
next
  case (Cons r rs)
  show ?case
  proof (cases "cmp val r")
    case True
    then show ?thesis
      using Cons swo_asym [OF swo True] by (auto simp: set_ins)
  next
    case False
    have "\<not> cmp val y" if "y \<in> set rs" for y
      using Cons(2) that swo_trans [OF swo, of r y val] False by auto
    then show ?thesis
      using Cons(2) False by auto
  qed
qed

lemma linear_insert_loop_ins:
  "linear_insert_loop cmp (ps @ x # qs) val (length ps) = rev (ins cmp val (rev ps)) @ qs"
proof (induction ps arbitrary: x qs rule: rev_induct)
  case Nil
  show ?case
    by (subst linear_insert_loop.simps) simp
next
  case (snoc p ps)
  show ?case
  proof (cases "cmp val p")
    case True
    have "linear_insert_loop cmp ((ps @ [p]) @ x # qs) val (length (ps @ [p]))
        = linear_insert_loop cmp (ps @ p # p # qs) val (length ps)"
      using True by (subst linear_insert_loop.simps) (simp add: nth_append list_update_append)
    then show ?thesis
      using True snoc [of p "p # qs"] by simp
  next
    case False
    then show ?thesis
      by (subst linear_insert_loop.simps) (simp add: nth_append list_update_append)
  qed
qed

lemma unguarded_linear_insert_ins:
  assumes "i < length xs"
  shows "unguarded_linear_insert cmp xs i
           = rev (ins cmp (xs ! i) (rev (take i xs))) @ drop (Suc i) xs"
proof -
  have "xs = take i xs @ xs ! i # drop (Suc i) xs"
    using assms by (rule id_take_nth_drop)
  then have "linear_insert_loop cmp xs (xs ! i) i
      = linear_insert_loop cmp (take i xs @ xs ! i # drop (Suc i) xs) (xs ! i)
          (length (take i xs))"
    using assms by simp
  then show ?thesis
    by (simp only: unguarded_linear_insert_def linear_insert_loop_ins)
qed

lemma unguarded_linear_insert_step:
  assumes swo: "strict_weak_order cmp"
    and i: "i < length xs"
    and s: "sorted_wrt (\<lambda>a b. \<not> cmp b a) (take i xs)"
  shows "length (unguarded_linear_insert cmp xs i) = length xs"
    and "mset (unguarded_linear_insert cmp xs i) = mset xs"
    and "sorted_wrt (\<lambda>a b. \<not> cmp b a) (take (Suc i) (unguarded_linear_insert cmp xs i))"
proof -
  let ?r = "rev (ins cmp (xs ! i) (rev (take i xs)))"
  have e: "unguarded_linear_insert cmp xs i = ?r @ drop (Suc i) xs"
    using i by (rule unguarded_linear_insert_ins)
  have l: "length ?r = Suc i"
    using i by (simp add: length_ins)
  show "length (unguarded_linear_insert cmp xs i) = length xs"
    using i l by (simp add: e)
  have "mset xs = mset (take i xs @ xs ! i # drop (Suc i) xs)"
    using id_take_nth_drop [OF i] by simp
  then show "mset (unguarded_linear_insert cmp xs i) = mset xs"
    by (simp add: e mset_ins)
  have "sorted_wrt (\<lambda>a b. \<not> cmp a b) (rev (take i xs))"
    using s by (simp add: sorted_wrt_rev)
  then have "sorted_wrt (\<lambda>a b. \<not> cmp a b) (ins cmp (xs ! i) (rev (take i xs)))"
    by (rule sorted_ins [OF swo])
  then have "sorted_wrt (\<lambda>a b. \<not> cmp b a) ?r"
    by (simp add: sorted_wrt_rev)
  then show "sorted_wrt (\<lambda>a b. \<not> cmp b a) (take (Suc i) (unguarded_linear_insert cmp xs i))"
    using l by (simp add: e)
qed

lemma move_to_first_step:
  assumes swo: "strict_weak_order cmp"
    and i: "i < length xs" and p: "0 < i"
    and s: "sorted_wrt (\<lambda>a b. \<not> cmp b a) (take i xs)"
    and c: "cmp (xs ! i) (xs ! 0)"
  shows "length (move_to_first xs 0 i) = length xs"
    and "mset (move_to_first xs 0 i) = mset xs"
    and "sorted_wrt (\<lambda>a b. \<not> cmp b a) (take (Suc i) (move_to_first xs 0 i))"
proof -
  have e: "move_to_first xs 0 i = xs ! i # take i xs @ drop (Suc i) xs"
    by (simp add: move_to_first_def)
  show "length (move_to_first xs 0 i) = length xs"
    using i by (simp add: e)
  have "mset xs = mset (take i xs @ xs ! i # drop (Suc i) xs)"
    using id_take_nth_drop [OF i] by simp
  then show "mset (move_to_first xs 0 i) = mset xs"
    by (simp add: e)
  obtain j where j: "i = Suc j"
    using p by (cases i) simp_all
  have "xs \<noteq> []"
    using i by auto
  then have "take i xs = xs ! 0 # take j (tl xs)"
    by (simp add: j take_Suc hd_conv_nth)
  then obtain ys where t: "take i xs = xs ! 0 # ys"
    by blast
  have h0: "\<not> cmp (xs ! 0) (xs ! i)"
    using swo_asym [OF swo c] .
  have "\<not> cmp y (xs ! i)" if "y \<in> set ys" for y
    using s t that swo_trans [OF swo, of "xs ! 0" "xs ! i" y] h0 by auto
  then have "sorted_wrt (\<lambda>a b. \<not> cmp b a) (xs ! i # take i xs)"
    using s t h0 by auto
  then show "sorted_wrt (\<lambda>a b. \<not> cmp b a) (take (Suc i) (move_to_first xs 0 i))"
    using i by (simp add: e)
qed

lemma insertion_sort_loop_sorted:
  assumes swo: "strict_weak_order cmp"
  shows "0 < i \<Longrightarrow> i \<le> n \<Longrightarrow> n \<le> length xs \<Longrightarrow>
     sorted_wrt (\<lambda>a b. \<not> cmp b a) (take i xs) \<Longrightarrow>
     length (insertion_sort_loop cmp xs 0 i n) = length xs
     \<and> mset (insertion_sort_loop cmp xs 0 i n) = mset xs
     \<and> sorted_wrt (\<lambda>a b. \<not> cmp b a) (take n (insertion_sort_loop cmp xs 0 i n))"
proof (induction "n - i" arbitrary: i xs)
  case 0
  then have "i = n" by simp
  then show ?case
    using 0 by (subst insertion_sort_loop.simps, subst insertion_sort_loop.simps,
        subst insertion_sort_loop.simps) simp
next
  case (Suc k)
  then have lt: "i < n" and il: "i < length xs" by simp_all
  define ys where
    "ys = (if cmp (xs ! i) (xs ! 0) then move_to_first xs 0 i
           else unguarded_linear_insert cmp xs i)"
  have st: "length ys = length xs \<and> mset ys = mset xs
      \<and> sorted_wrt (\<lambda>a b. \<not> cmp b a) (take (Suc i) ys)"
    unfolding ys_def
    using move_to_first_step [OF swo il Suc(3) Suc(6)]
      unguarded_linear_insert_step [OF swo il Suc(6)]
    by simp
  have u: "insertion_sort_loop cmp xs 0 i n = insertion_sort_loop cmp ys 0 (Suc i) n"
    using lt by (subst insertion_sort_loop.simps) (simp add: ys_def)
  have "length (insertion_sort_loop cmp ys 0 (Suc i) n) = length ys
     \<and> mset (insertion_sort_loop cmp ys 0 (Suc i) n) = mset ys
     \<and> sorted_wrt (\<lambda>a b. \<not> cmp b a) (take n (insertion_sort_loop cmp ys 0 (Suc i) n))"
    using Suc(1) [of "Suc i" ys] Suc(2) lt Suc(5) st by simp
  then show ?case
    using u st by simp
qed

lemma unguarded_insertion_sort_sorted:
  assumes swo: "strict_weak_order cmp"
  shows "i \<le> n \<Longrightarrow> n \<le> length xs \<Longrightarrow>
     sorted_wrt (\<lambda>a b. \<not> cmp b a) (take i xs) \<Longrightarrow>
     length (unguarded_insertion_sort cmp xs i n) = length xs
     \<and> mset (unguarded_insertion_sort cmp xs i n) = mset xs
     \<and> sorted_wrt (\<lambda>a b. \<not> cmp b a) (take n (unguarded_insertion_sort cmp xs i n))"
proof (induction "n - i" arbitrary: i xs)
  case 0
  then have "i = n" by simp
  then show ?case
    using 0 by (subst unguarded_insertion_sort.simps, subst unguarded_insertion_sort.simps,
        subst unguarded_insertion_sort.simps) simp
next
  case (Suc k)
  then have lt: "i < n" and il: "i < length xs" by simp_all
  define ys where "ys = unguarded_linear_insert cmp xs i"
  have st: "length ys = length xs \<and> mset ys = mset xs
      \<and> sorted_wrt (\<lambda>a b. \<not> cmp b a) (take (Suc i) ys)"
    unfolding ys_def
    using unguarded_linear_insert_step [OF swo il Suc(5)] by simp
  have u: "unguarded_insertion_sort cmp xs i n = unguarded_insertion_sort cmp ys (Suc i) n"
    using lt by (subst unguarded_insertion_sort.simps) (simp add: ys_def)
  have "length (unguarded_insertion_sort cmp ys (Suc i) n) = length ys
     \<and> mset (unguarded_insertion_sort cmp ys (Suc i) n) = mset ys
     \<and> sorted_wrt (\<lambda>a b. \<not> cmp b a) (take n (unguarded_insertion_sort cmp ys (Suc i) n))"
    using Suc(1) [of "Suc i" ys] Suc(2) lt Suc(4) st by simp
  then show ?case
    using u st by simp
qed

lemma final_insertion_sort_sorted:
  assumes swo: "strict_weak_order cmp"
    and ne: "xs \<noteq> []"
  shows "mset (final_insertion_sort cmp xs 0 (length xs)) = mset xs
     \<and> sorted_wrt (\<lambda>a b. \<not> cmp b a) (final_insertion_sort cmp xs 0 (length xs))"
proof -
  have one: "sorted_wrt (\<lambda>a b. \<not> cmp b a) (take 1 xs)"
    using ne by (cases xs) simp_all
  show ?thesis
  proof (cases "length xs > 16")
    case True
    define ys where "ys = insertion_sort_loop cmp xs 0 1 16"
    define zs where "zs = unguarded_insertion_sort cmp ys 16 (length xs)"
    have g1: "0 < (1::nat)" and g2: "(1::nat) \<le> 16" and g3: "16 \<le> length xs"
      using True by simp_all
    have a: "length ys = length xs \<and> mset ys = mset xs
        \<and> sorted_wrt (\<lambda>a b. \<not> cmp b a) (take 16 ys)"
      unfolding ys_def by (rule insertion_sort_loop_sorted [OF swo g1 g2 g3 one])
    have h1: "16 \<le> length xs" and h2: "length xs \<le> length ys"
      and h3: "sorted_wrt (\<lambda>a b. \<not> cmp b a) (take 16 ys)"
      using True a by simp_all
    have b: "length zs = length ys \<and> mset zs = mset ys
        \<and> sorted_wrt (\<lambda>a b. \<not> cmp b a) (take (length xs) zs)"
      unfolding zs_def by (rule unguarded_insertion_sort_sorted [OF swo h1 h2 h3])
    have t: "take (length xs) zs = zs"
      using a b by simp
    have e: "final_insertion_sort cmp xs 0 (length xs) = zs"
      using True by (simp add: final_insertion_sort_def insertion_sort_def ys_def zs_def)
    have "mset zs = mset xs"
      using a b by simp
    moreover have "sorted_wrt (\<lambda>a b. \<not> cmp b a) zs"
      using b t by simp
    ultimately show ?thesis
      unfolding e by simp
  next
    case False
    define zs where "zs = insertion_sort_loop cmp xs 0 1 (length xs)"
    have g1: "0 < (1::nat)" and g2: "1 \<le> length xs" and g3: "length xs \<le> length xs"
      using ne by (simp_all add: Suc_leI)
    have a: "length zs = length xs \<and> mset zs = mset xs
        \<and> sorted_wrt (\<lambda>a b. \<not> cmp b a) (take (length xs) zs)"
      unfolding zs_def by (rule insertion_sort_loop_sorted [OF swo g1 g2 g3 one])
    have t: "take (length xs) zs = zs"
      using a by simp
    have e: "final_insertion_sort cmp xs 0 (length xs) = zs"
      using False ne by (simp add: final_insertion_sort_def insertion_sort_def zs_def)
    have "sorted_wrt (\<lambda>a b. \<not> cmp b a) zs"
      using a t by simp
    then show ?thesis
      unfolding e using a by simp
  qed
qed

lemma std_sort_sorted:
  assumes swo: "strict_weak_order cmp"
  shows "mset (std_sort cmp xs) = mset xs
     \<and> sorted_wrt (\<lambda>a b. \<not> cmp b a) (std_sort cmp xs)"
proof (cases "xs = []")
  case True
  then show ?thesis by (simp add: std_sort_def)
next
  case False
  define ys where "ys = introsort_loop cmp xs 0 (length xs) (lg (length xs) * 2)"
  have a: "length ys = length xs \<and> mset ys = mset xs"
    unfolding ys_def by (rule introsort_loop_mset) simp
  then have ne: "ys \<noteq> []"
    using False by auto
  have "std_sort cmp xs = final_insertion_sort cmp ys 0 (length ys)"
    using False a by (simp add: std_sort_def ys_def)
  then show ?thesis
    using final_insertion_sort_sorted [OF swo ne] a by simp
qed

subsection \<open>The ranking of the reports\<close>

lemma worse_first_strict_weak_order: "strict_weak_order worse_first"
  unfolding strict_weak_order_def worse_first_def by auto

text \<open>
  The sort of \<^verbatim>\<open>main\<close> run on seventeen reports that all have the legacy index 0: the
  partition step exchanges them, and they leave the sort in another order than the one in
  which they were discovered.
\<close>

theorem ranking_not_stable:
  "map file_path (std_sort worse_first tied_reports)
     = [''i.c'', ''q.c'', ''p.c'', ''o.c'', ''n.c'', ''m.c'', ''l.c'', ''k.c'', ''j.c'',
        ''a.c'', ''h.c'', ''g.c'', ''f.c'', ''e.c'', ''d.c'', ''c.c'', ''b.c'']
   \<and> map shit_mountain_index (std_sort worse_first tied_reports) = replicate 17 0
   \<and> \<not> keeps_tie_order tied_reports (std_sort worse_first tied_reports)"
  by code_simp

text \<open>
  C2 (amended). The sort in \<^verbatim>\<open>main\<close> returns a permutation of the collected reports in
  which the legacy index never increases from one report to the next (worst first); the
  sequence of indices is thereby fixed. The order among reports of equal index is the one
  the partition steps leave, not the discovery order.
\<close>

theorem ranking_descending:
  "mset (std_sort worse_first xs) = mset xs
   \<and> sorted_wrt (\<lambda>a b. shit_mountain_index a \<ge> shit_mountain_index b)
       (std_sort worse_first xs)
   \<and> map shit_mountain_index (std_sort worse_first xs)
       = rev (sort (map shit_mountain_index xs))"
proof -
  define ys where "ys = std_sort worse_first xs"
  have p: "mset ys = mset xs"
    and o: "sorted_wrt (\<lambda>a b. \<not> worse_first b a) ys"
    unfolding ys_def using std_sort_sorted [OF worse_first_strict_weak_order, of xs]
    by simp_all
  have s: "sorted_wrt (\<lambda>a b. shit_mountain_index a \<ge> shit_mountain_index b) ys"
    using o by (simp add: worse_first_def not_less)
  have "sorted (rev (map shit_mountain_index ys))"
    using s by (simp add: sorted_wrt_rev sorted_wrt_map)
  moreover have "mset (rev (map shit_mountain_index ys)) = mset (map shit_mountain_index xs)"
    using p by (metis mset_map mset_rev)
  ultimately have "sort (map shit_mountain_index xs) = rev (map shit_mountain_index ys)"
    by (metis properties_for_sort)
  then show ?thesis
    using p s unfolding ys_def by simp
qed

section \<open>Function names\<close>







section \<open>Cyclomatic complexity\<close>

lemma calculateComplexity_sum:
  "calculateComplexity s n = decision_points s n + int (length (function_nodes s n))"
  "calculateComplexity_loop s cs acc =
     acc + (\<Sum>c\<leftarrow>cs. decision_points s c + int (length (function_nodes s c)))"
proof (induction s n and s cs acc rule: calculateComplexity_calculateComplexity_loop.induct)
  case (1 s t f sp he cs)
  have a: "sum_list (map (decision_point s) (concat (map subtree_nodes cs)))
             = (\<Sum>c\<leftarrow>cs. decision_points s c)"
    by (induction cs) (simp_all add: decision_points_def)
  have b: "int (length (filter (\<lambda>d. ts_node_type d \<in> set (getFunctionDefinitionTypes s))
                  (concat (map subtree_nodes cs))))
             = (\<Sum>c\<leftarrow>cs. int (length (function_nodes s c)))"
    by (induction cs) (simp_all add: function_nodes_def)
  show ?case
    using 1 a b
    by (simp add: decision_points_def function_nodes_def decision_point_def Let_def
        sum_list_addf)
next
  case (2 s acc)
  then show ?case by simp
next
  case (3 s c cs acc)
  then show ?case by simp
qed

lemma decision_points_nonneg: "0 \<le> decision_points s n"
  unfolding decision_points_def
  by (rule sum_list_nonneg) (auto simp: decision_point_def)

text \<open>
  For a function defined inside a function the complexity of the outer one is not its
  decision points plus one: the inner function node adds a base point of its own.
\<close>

theorem nested_function_base_points:
  "ts_node_type outer_def \<in> set (getFunctionDefinitionTypes PythonStrategy)
   \<and> decision_points PythonStrategy outer_def = 0
   \<and> calculateComplexity PythonStrategy outer_def = 2
   \<and> calculateComplexity PythonStrategy outer_def
       \<noteq> decision_points PythonStrategy outer_def + 1"
  by (simp add: outer_def_def inner_def_def syntax_node_def decision_points_def
      decision_point_def)

text \<open>
  C4 (amended). The complexity of a node is the number of decision points in its subtree
  (at most one per node, the complexity types consulted before the logical-operator test)
  plus one base point for every node of the subtree whose type is a function-definition
  type. For a function node this is at least 1, and it is the decision points plus exactly
  1 when no function is defined inside it.
\<close>

theorem complexity_formula:
  "calculateComplexity s n = decision_points s n + int (length (function_nodes s n))
   \<and> (ts_node_type n \<in> set (getFunctionDefinitionTypes s) \<longrightarrow>
        1 \<le> calculateComplexity s n
        \<and> (function_nodes s n = [n] \<longrightarrow> calculateComplexity s n = decision_points s n + 1))"
proof -
  have "ts_node_type n \<in> set (getFunctionDefinitionTypes s)
          \<Longrightarrow> 1 \<le> length (function_nodes s n)"
    by (cases n) (simp add: function_nodes_def)
  then show ?thesis
    using calculateComplexity_sum(1) [of s n] decision_points_nonneg [of s n] by auto
qed

theorem complexity_formula_witness:
  "ts_node_type sign_def \<in> set (getFunctionDefinitionTypes CStrategy)
   \<and> function_nodes CStrategy sign_def = [sign_def]
   \<and> decision_points CStrategy sign_def = 2
   \<and> calculateComplexity CStrategy sign_def = 3"
proof -
  have t: "ts_node_type sign_def \<in> set (getFunctionDefinitionTypes CStrategy)"
    by (simp add: sign_def_def syntax_node_def getFunctionDefinitionTypes_C_def)
  have f: "function_nodes CStrategy sign_def = [sign_def]"
    by (simp add: sign_def_def syntax_node_def function_nodes_def
        getFunctionDefinitionTypes_C_def)
  have d: "decision_points CStrategy sign_def = 2"
    by (simp add: sign_def_def syntax_node_def decision_points_def decision_point_def
        getComplexityNodeTypes_C_def isLogicalOperator_default_def
        ts_node_child_by_field_name_def)
  show ?thesis
    using t f d complexity_formula [of CStrategy sign_def] by simp
qed

section \<open>Aggregation\<close>

text \<open>What \<open>aggregate\<close> and \<open>calculateFinalScore\<close> store in the fields of the metrics.\<close>

lemma fold_real_sum:
  "fold (\<lambda>func t. t + real_of_int (g func)) fs a = a + real_of_int (sum_list (map g fs))"
  by (induction fs arbitrary: a) simp_all

lemma aggregate_fields:
  "functions_v (aggregate m) = functions_v m"
  "naming_violations (aggregate m) = naming_violations m"
  "comment_coverage_ratio (aggregate m) = coverage m"
  "avg_function_length (aggregate m) =
     (if functions_v m = [] then avg_function_length m
      else mean (map line_count (functions_v m)))"
  "avg_function_complexity (aggregate m) =
     (if functions_v m = [] then avg_function_complexity m
      else mean (map complexity (functions_v m)))"
  by (simp_all add: aggregate_def Let_def coverage_def mean_def fold_real_sum)

lemma calculateFinalScore_fields:
  "functions_v (calculateFinalScore m) = functions_v (aggregate m)"
  "naming_violations (calculateFinalScore m) = naming_violations (aggregate m)"
  "comment_coverage_ratio (calculateFinalScore m) = comment_coverage_ratio (aggregate m)"
  "avg_function_length (calculateFinalScore m) = avg_function_length (aggregate m)"
  "avg_function_complexity (calculateFinalScore m) = avg_function_complexity (aggregate m)"
  by (simp_all add: calculateFinalScore_def Let_def)

section \<open>Function discovery\<close>


lemma nodes_in_context_inside: "(b, d) \<in> set (nodes_in_context s True n) \<Longrightarrow> b"
  by (induction s "True" n arbitrary: b d rule: nodes_in_context.induct) auto

lemma discovered_function_node:
  "ts_node_type n \<in> set (getFunctionDefinitionTypes s) \<Longrightarrow>
   discovered_nodes s n = (if isSpecialFunction s n then [] else [n])"
proof (cases n)
  case (TSNode t f sp he cs)
  assume a: "ts_node_type n \<in> set (getFunctionDefinitionTypes s)"
  have "filter (\<lambda>(inside, d). \<not> inside \<and> ts_node_type d \<in> set (getFunctionDefinitionTypes s)
                          \<and> \<not> isSpecialFunction s d)
          (concat (map (nodes_in_context s True) cs)) = []"
    by (auto simp: filter_empty_conv dest: nodes_in_context_inside)
  then show ?thesis using a TSNode by (simp add: discovered_nodes_def)
qed

lemma discovered_other_node:
  "t \<notin> set (getFunctionDefinitionTypes s) \<Longrightarrow>
   discovered_nodes s (TSNode t f sp he cs) = concat (map (discovered_nodes s) cs)"
proof -
  assume "t \<notin> set (getFunctionDefinitionTypes s)"
  then have "discovered_nodes s (TSNode t f sp he cs)
      = concat (map (\<lambda>c. map snd
          (filter
             (\<lambda>(inside, d). \<not> inside \<and> ts_node_type d \<in> set (getFunctionDefinitionTypes s)
                             \<and> \<not> isSpecialFunction s d)
             (nodes_in_context s False c))) cs)"
    by (simp add: discovered_nodes_def map_concat filter_concat comp_def)
  also have "\<dots> = concat (map (discovered_nodes s) cs)"
    unfolding discovered_nodes_def ..
  finally show ?thesis .
qed

lemma analyzeSingleFunction_lines:
  "analyzeSingleFunction s parent n m src = Inr m' \<Longrightarrow>
   map record_lines (functions_v m') = map record_lines (functions_v m) @ [node_lines s n]"
  by (auto simp: analyzeSingleFunction_def Let_def record_lines_def node_lines_def split: sum.splits)

lemma analyzeFunctions_discovered:
  "analyzeFunctions s parent n m src = Inr m' \<Longrightarrow>
     map record_lines (functions_v m')
       = map record_lines (functions_v m) @ map (node_lines s) (discovered_nodes s n)"
  "analyzeFunctions_loop s p cs m src = Inr m' \<Longrightarrow>
     map record_lines (functions_v m')
       = map record_lines (functions_v m)
         @ map (node_lines s) (concat (map (discovered_nodes s) cs))"
proof (induction s parent n m src and s p cs m src arbitrary: m' and m'
       rule: analyzeFunctions_analyzeFunctions_loop.induct)
  case (1 s parent t f sp he cs metrics sourceCode)
  show ?case
  proof (cases "t \<in> set (getFunctionDefinitionTypes s)")
    case True
    then have d: "discovered_nodes s (TSNode t f sp he cs)
        = (if isSpecialFunction s (TSNode t f sp he cs) then [] else [TSNode t f sp he cs])"
      using discovered_function_node [of "TSNode t f sp he cs" s] by simp
    show ?thesis
    proof (cases "isSpecialFunction s (TSNode t f sp he cs)")
      case True
      then show ?thesis using 1(2) \<open>t \<in> set (getFunctionDefinitionTypes s)\<close> d by simp
    next
      case False
      then have "analyzeSingleFunction s parent (TSNode t f sp he cs) metrics sourceCode = Inr m'"
        using 1(2) \<open>t \<in> set (getFunctionDefinitionTypes s)\<close> by simp
      then show ?thesis using d False by (simp add: analyzeSingleFunction_lines)
    qed
  next
    case False
    then have "analyzeFunctions_loop s (TSNode t f sp he cs) cs metrics sourceCode = Inr m'"
      using 1(2) by simp
    then show ?thesis
      using 1(1) [OF False] False by (simp add: discovered_other_node)
  qed
next
  case (2 s node metrics sourceCode)
  then show ?case by simp
next
  case (3 s node c cs metrics sourceCode)
  from 3(3) obtain m1 where
    a: "analyzeFunctions s (Some node) c metrics sourceCode = Inr m1"
    and b: "analyzeFunctions_loop s node cs m1 sourceCode = Inr m'"
    by (auto split: sum.splits)
  show ?case
    using 3(1) [OF a] 3(2) [OF a b] by simp
qed











text \<open>
  C10. At a node whose type is a function-definition type the walk stops: whatever is
  nested below it, the node yields no record when it is exempt and otherwise exactly one,
  its own. Over a whole tree the records therefore correspond, in order, to the
  function-type nodes that are not exempt and not nested inside a function-type node; a
  function defined inside another function-type node gets no record.
\<close>

theorem no_descent_below_function_node:
  assumes "analyzeFunctions s parent n m src = Inr m'"
  shows "map record_lines (functions_v m')
           = map record_lines (functions_v m) @ map (node_lines s) (discovered_nodes s n)
     \<and> (ts_node_type n \<in> set (getFunctionDefinitionTypes s) \<longrightarrow>
          discovered_nodes s n = (if isSpecialFunction s n then [] else [n])
          \<and> functions_v m' =
              (if isSpecialFunction s n then functions_v m
               else functions_v m @ [last (functions_v m')]))"
proof -
  have g: "map record_lines (functions_v m')
           = map record_lines (functions_v m) @ map (node_lines s) (discovered_nodes s n)"
    using assms by (rule analyzeFunctions_discovered(1))
  have l: "functions_v m' =
              (if isSpecialFunction s n then functions_v m
               else functions_v m @ [last (functions_v m')])"
    if t: "ts_node_type n \<in> set (getFunctionDefinitionTypes s)"
  proof (cases "isSpecialFunction s n")
    case True
    then show ?thesis
      using assms t by (cases n) auto
  next
    case False
    then have "analyzeSingleFunction s parent n m src = Inr m'"
      using assms t by (cases n) auto
    then show ?thesis
      using False by (auto simp: analyzeSingleFunction_def Let_def split: sum.splits)
  qed
  show ?thesis
    using g l discovered_function_node [of n s] by simp
qed

theorem no_descent_below_function_node_witness:
  "analyzeFunctions PythonStrategy (Some nested_def_tree) outer_def FileMetrics_init
        nested_def_source
      = Inr (FileMetrics_init
              \<lparr>functions_v :=
                 [\<lparr>name = ''outer'', line_start = 1, line_end = 2, line_count = 2,
                   complexity = 2\<rparr>]\<rparr>)
   \<and> ts_node_type outer_def \<in> set (getFunctionDefinitionTypes PythonStrategy)
   \<and> inner_def \<in> set (function_nodes PythonStrategy outer_def)
   \<and> discovered_nodes PythonStrategy outer_def = [outer_def]"
proof -
  have h: "analyzeFunctions PythonStrategy (Some nested_def_tree) outer_def FileMetrics_init
        nested_def_source
      = Inr (FileMetrics_init
              \<lparr>functions_v :=
                 [\<lparr>name = ''outer'', line_start = 1, line_end = 2, line_count = 2,
                   complexity = 2\<rparr>]\<rparr>)"
    by (simp add: outer_def_def inner_def_def nested_def_source_def syntax_node_def
        analyzeSingleFunction_def extractFunctionName_by_name_def
        ts_node_child_by_field_name_def getNodeText_def FileMetrics_init_def Let_def)
  have t: "ts_node_type outer_def \<in> set (getFunctionDefinitionTypes PythonStrategy)"
    by (simp add: outer_def_def syntax_node_def)
  have i: "inner_def \<in> set (function_nodes PythonStrategy outer_def)"
    by (simp add: outer_def_def inner_def_def syntax_node_def function_nodes_def)
  have e: "\<not> isSpecialFunction PythonStrategy outer_def"
    by simp
  show ?thesis
    using h t i e no_descent_below_function_node [OF h] by simp
qed

section \<open>The score of a file\<close>

text \<open>
  The bounds that do hold: every sub-score is at least 0; the naming, complexity and
  comment scores are at most 100 on the values the extraction can produce; the length
  score is at most 100 only from an average length of 10 lines on.
\<close>

lemma sub_score_bounds:
  "0 \<le> naming_score v \<and> (0 \<le> v \<longrightarrow> naming_score v \<le> 100)
   \<and> 0 \<le> complexity_score c \<and> (1 \<le> c \<longrightarrow> complexity_score c \<le> 100)
   \<and> 0 \<le> comment_score_B r \<and> comment_score_B r \<le> 100
   \<and> (0 \<le> r \<longrightarrow> 0 \<le> comment_score_A r) \<and> comment_score_A r \<le> 100
   \<and> 0 \<le> length_score l \<and> (10 \<le> l \<longrightarrow> length_score l \<le> 100)"
  by (auto simp: naming_score_def complexity_score_def comment_score_B_def
      comment_score_A_def length_score_def)

text \<open>
  C1. Every sub-score is to lie between 0 and 100, and with them the legacy index. The
  length score breaks the bound for functions shorter than 10 lines: on the C file
  \<open>primes_source\<close>, whose only function takes one line, the analysis computes a length
  score of 110 and a legacy index of \<open>- 3 / 2\<close>.
\<close>

theorem legacy_index_below_zero:
  "analyze (Some CStrategy) primes_tree ''primes.c'' primes_source
     = Inr \<lparr>file_path = ''primes.c'',
            functions_v =
              [\<lparr>name = ''count'', line_start = 4, line_end = 4, line_count = 1,
                complexity = 1\<rparr>],
            avg_function_length = 1, avg_function_complexity = 1, total_lines = 20,
            comment_lines = 3, comment_coverage_ratio = 15, naming_violations = 0,
            shit_mountain_index = - (3 / 2)\<rparr>
   \<and> length_score 1 = 110"
  by code_simp

text \<open>
  C5. The scoring leaves the function list unchanged, and the legacy index it stores is
  decided by that list alone: for a file without a function record it is Policy A,
  \<open>100 - (comment_score * 0.7 + naming_score * 0.3)\<close>, of the comment coverage and the
  naming violations of the file; for a file with at least one function record it is
  Policy B of the mean complexity and the mean length of the recorded functions, the
  comment coverage and the naming violations. No input gets a mixture of the two.
\<close>

theorem policy_selection:
  "functions_v (calculateFinalScore m) = functions_v m
   \<and> comment_coverage_ratio (calculateFinalScore m) = coverage m
   \<and> shit_mountain_index (calculateFinalScore m) =
       (if functions_v m = [] then policy_A (coverage m) (naming_violations m)
        else
          policy_B (mean (map complexity (functions_v m)))
            (mean (map line_count (functions_v m))) (coverage m) (naming_violations m))"
proof -
  have i: "shit_mountain_index (calculateFinalScore m) =
       (if functions_v m = [] then policy_A (coverage m) (naming_violations m)
        else
          policy_B (mean (map complexity (functions_v m)))
            (mean (map line_count (functions_v m))) (coverage m) (naming_violations m))"
  proof (cases "functions_v m = []")
    case True
    then have "shit_mountain_index (calculateFinalScore m) =
         100 - (comment_score_A (comment_coverage_ratio (aggregate m)) * 0.7
                + naming_score (naming_violations (aggregate m)) * 0.3)"
      by (simp add: calculateFinalScore_def Let_def aggregate_fields(1))
    then show ?thesis
      using True
      by (simp add: aggregate_fields policy_A_def comment_score_A_def naming_score_def)
  next
    case False
    then have "shit_mountain_index (calculateFinalScore m) =
         100 - (complexity_score (avg_function_complexity (aggregate m)) * 0.50
                + length_score (avg_function_length (aggregate m)) * 0.15
                + comment_score_B (comment_coverage_ratio (aggregate m)) * 0.15
                + naming_score (naming_violations (aggregate m)) * 0.20)"
      by (simp add: calculateFinalScore_def Let_def aggregate_fields(1))
    then show ?thesis
      using False
      by (simp add: aggregate_fields policy_B_def complexity_score_def length_score_def
          comment_score_B_def naming_score_def)
  qed
  show ?thesis
    using i by (simp add: calculateFinalScore_fields aggregate_fields)
qed

section \<open>Parse failures\<close>

lemma main_loop_append:
  "main_loop ts fs (xs @ ys) acc =
     (case main_loop ts fs xs acc of
        Inl e \<Rightarrow> Inl e
      | Inr a \<Rightarrow> main_loop ts fs ys a)"
  by (induction xs arbitrary: acc) (auto split: sum.splits)

lemma Parser_getLanguage_cases:
  "Parser_getLanguage l = None \<or> Parser_getLanguage l = Some l"
  unfolding Parser_getLanguage_def by (rule if_split [THEN iffD2]) blast

lemma Parser_parse_fails:
  assumes "parse_fails ts language sourceCode"
  shows "\<not> fst (Parser_parse ts sourceCode language)"
proof -
  consider "Parser_getLanguage language = None"
    | "Parser_getLanguage language = Some language"
    using Parser_getLanguage_cases [of language] by auto
  then show ?thesis
  proof cases
    case 1
    then show ?thesis
      by (simp add: Parser_parse_def)
  next
    case 2
    then show ?thesis
      using assms
      by (simp add: Parser_parse_def parse_fails_def Let_def split: option.splits)
  qed
qed

lemma analyzeFile_parse_false:
  assumes "\<not> fst (Parser_parse ts sourceCode (getLanguageFromFile filePath))"
    and "fs filePath = Some sourceCode"
  shows "analyzeFile ts fs filePath = Inr FileMetrics_init"
proof -
  obtain t where "Parser_parse ts sourceCode (getLanguageFromFile filePath) = (False, t)"
    using assms(1)
    by (cases "Parser_parse ts sourceCode (getLanguageFromFile filePath)") simp
  then show ?thesis
    using assms(2) by (simp add: analyzeFile_def Let_def)
qed

text \<open>
  C9. When the parser returns no tree for a file, or a tree that holds a syntax error,
  \<open>Parser::parse\<close> reports failure, \<open>analyzeFile\<close> returns the empty default metrics
  without running the analyzer, no report is added for the file, and the loop of \<open>main\<close>
  goes on with the other files exactly as if the file were not there.
\<close>

theorem parse_failure_skips_file:
  assumes "fs filePath = Some sourceCode"
    and "parse_fails ts (getLanguageFromFile filePath) sourceCode"
  shows "\<not> fst (Parser_parse ts sourceCode (getLanguageFromFile filePath))
     \<and> analyzeFile ts fs filePath = Inr FileMetrics_init
     \<and> main_loop ts fs (filePath # entries) all_metrics = main_loop ts fs entries all_metrics
     \<and> main_loop ts fs (before @ filePath # entries) all_metrics
         = main_loop ts fs (before @ entries) all_metrics"
proof -
  have a: "\<not> fst (Parser_parse ts sourceCode (getLanguageFromFile filePath))"
    using assms(2) by (rule Parser_parse_fails)
  have b: "analyzeFile ts fs filePath = Inr FileMetrics_init"
    using a assms(1) by (rule analyzeFile_parse_false)
  have "file_path FileMetrics_init = []"
    by (simp add: FileMetrics_init_def)
  then have c: "\<And>acc. main_loop ts fs (filePath # entries) acc = main_loop ts fs entries acc"
    using b by simp
  have d: "main_loop ts fs (before @ filePath # entries) all_metrics
         = main_loop ts fs (before @ entries) all_metrics"
    unfolding main_loop_append [of ts fs before] c ..
  show ?thesis
    using a b c d by blast
qed

theorem parse_failure_skips_file_witness:
  "example_fs ''broken.py'' = Some broken_source
   \<and> parse_fails example_parser (getLanguageFromFile ''broken.py'') broken_source
   \<and> analyzeFile example_parser example_fs ''broken.py'' = Inr FileMetrics_init
   \<and> main_loop example_parser example_fs ([] @ ''broken.py'' # [''nested.py'']) []
       = main_loop example_parser example_fs ([] @ [''nested.py'']) []"
proof -
  have f: "example_fs ''broken.py'' = Some broken_source"
    by (simp add: example_fs_def)
  have p: "parse_fails example_parser (getLanguageFromFile ''broken.py'') broken_source"
    by (simp add: parse_fails_def example_parser_def broken_tree_def)
  show ?thesis
    using f p
      parse_failure_skips_file
        [of example_fs "''broken.py''" broken_source example_parser "[''nested.py'']" "[]"
           "[]", OF f p]
    by (elim conjE) (intro conjI; assumption)
qed

end
